theory Spec2Isabelle
  imports Main "HOL-Library.Word"
begin

unbundle bit_operations_syntax

section \<open>RAIDA key exchange: bytes and the stream transform\<close>

type_synonym byte = "8 word"

text \<open>
  \<^verbatim>\<open>crypt_ctr(key, data, length, nonce)\<close> of \<^verbatim>\<open>src/common/aes.h\<close>: one pass over the
  indices \<open>0 ..< length\<close>, each step replacing \<open>data[i]\<close> by
  \<open>data[i] ^ (key[i % 16] ^ nonce[i % 16])\<close>. The buffer is returned updated.
\<close>

definition crypt_ctr :: "byte list \<Rightarrow> byte list \<Rightarrow> nat \<Rightarrow> byte list \<Rightarrow> byte list" where
  "crypt_ctr key dat len nonce =
     fold (\<lambda>i d. d[i := d ! i XOR (key ! (i mod 16) XOR nonce ! (i mod 16))]) [0..<len] dat"

section \<open>The checksum: \<^verbatim>\<open>simple_sha256\<close> of \<^verbatim>\<open>rke_crypto.c\<close>\<close>

text \<open>The table \<^verbatim>\<open>k[64]\<close>, one row of the source per line.\<close>

definition k :: "32 word list" where
  "k = concat [
    [0x428a2f98, 0x71374491, 0xb5c0fbcf, 0xe9b5dba5, 0x3956c25b, 0x59f111f1, 0x923f82a4, 0xab1c5ed5],
    [0xd807aa98, 0x12835b01, 0x243185be, 0x550c7dc3, 0x72be5d74, 0x80deb1fe, 0x9bdc06a7, 0xc19bf174],
    [0xe49b69c1, 0xefbe4786, 0x0fc19dc6, 0x240ca1cc, 0x2de92c6f, 0x4a7484aa, 0x5cb0a9dc, 0x76f988da],
    [0x983e5152, 0xa831c66d, 0xb00327c8, 0xbf597fc7, 0xc6e00bf3, 0xd5a79147, 0x06ca6351, 0x14292967],
    [0x27b70a85, 0x2e1b2138, 0x4d2c6dfc, 0x53380d13, 0x650a7354, 0x766a0abb, 0x81c2c92e, 0x92722c85],
    [0xa2bfe8a1, 0xa81a664b, 0xc24b8b70, 0xc76c51a3, 0xd192e819, 0xd6990624, 0xf40e3585, 0x106aa070],
    [0x19a4c116, 0x1e376c08, 0x2748774c, 0x34b0bcb5, 0x391c0cb3, 0x4ed8aa4a, 0x5b9cca4f, 0x682e6ff3],
    [0x748f82ee, 0x78a5636f, 0x84c87814, 0x8cc70208, 0x90befffa, 0xa4506ceb, 0xbef9a3f7, 0xc67178f2]]"

definition rotr :: "32 word \<Rightarrow> nat \<Rightarrow> 32 word" where
  "rotr x n = drop_bit n x OR push_bit (32 - n) x"

definition ch :: "32 word \<Rightarrow> 32 word \<Rightarrow> 32 word \<Rightarrow> 32 word" where
  "ch x y z = (x AND y) XOR (NOT x AND z)"

definition maj :: "32 word \<Rightarrow> 32 word \<Rightarrow> 32 word \<Rightarrow> 32 word" where
  "maj x y z = (x AND y) XOR (x AND z) XOR (y AND z)"

definition ep0 :: "32 word \<Rightarrow> 32 word" where
  "ep0 x = rotr x 2 XOR rotr x 13 XOR rotr x 22"

definition ep1 :: "32 word \<Rightarrow> 32 word" where
  "ep1 x = rotr x 6 XOR rotr x 11 XOR rotr x 25"

definition sig0 :: "32 word \<Rightarrow> 32 word" where
  "sig0 x = rotr x 7 XOR rotr x 18 XOR drop_bit 3 x"

definition sig1 :: "32 word \<Rightarrow> 32 word" where
  "sig1 x = rotr x 17 XOR rotr x 19 XOR drop_bit 10 x"

text \<open>The padding loop \<^verbatim>\<open>while (padded_len % 64 != 56) padded[padded_len++] = 0\<close>.\<close>

function pad_zeros :: "byte list \<Rightarrow> byte list" where
  "pad_zeros p = (if length p mod 64 \<noteq> 56 then pad_zeros (p @ [0]) else p)"
  by pat_completeness auto
termination
proof (relation "measure (\<lambda>p. (120 - length p mod 64) mod 64)")
  show "wf (measure (\<lambda>p::byte list. (120 - length p mod 64) mod 64))" by simp
next
  fix p :: "byte list"
  assume ne: "length p mod 64 \<noteq> 56"
  define r where "r = length p mod 64"
  have r: "r < 64" "r \<noteq> 56" using ne by (simp_all add: r_def)
  have step: "Suc (length p) mod 64 = (if r = 63 then 0 else Suc r)"
    by (simp add: mod_Suc r_def)
  have "(120 - (if r = 63 then 0 else Suc r)) mod 64 < (120 - r) mod 64"
  proof (cases "r \<le> 55")
    case True
    then have a: "120 - r = 64 + (56 - r)" and b: "120 - Suc r = 64 + (55 - r)" by arith+
    have "(120 - r) mod 64 = 56 - r" unfolding a by simp
    moreover have "(120 - Suc r) mod 64 = 55 - r" unfolding b by simp
    ultimately show ?thesis using True by simp
  next
    case False
    with r have c: "57 \<le> r" "r \<le> 63" by arith+
    show ?thesis
    proof (cases "r = 63")
      case True
      then show ?thesis by simp
    next
      case False
      with c have "120 - r < 64" "120 - Suc r < 64" "120 - Suc r < 120 - r" by arith+
      then show ?thesis using False by simp
    qed
  qed
  then show "(p @ [0], p) \<in> measure (\<lambda>p. (120 - length p mod 64) mod 64)"
    using step by (simp add: r_def)
qed

text \<open>The eight bytes of the 64-bit bit length, most significant first.\<close>

definition bit_len_bytes :: "nat \<Rightarrow> byte list" where
  "bit_len_bytes len =
     map (\<lambda>i. ucast (drop_bit (56 - i * 8) (word_of_nat (len * 8) :: 64 word))) [0..<8]"

definition sha_pad :: "byte list \<Rightarrow> byte list" where
  "sha_pad dat = pad_zeros (dat @ [0x80]) @ bit_len_bytes (length dat)"

text \<open>The message schedule: sixteen big-endian words of the chunk, then 48 derived words.\<close>

definition be_word :: "byte list \<Rightarrow> nat \<Rightarrow> 32 word" where
  "be_word p j = push_bit 24 (ucast (p ! j)) OR push_bit 16 (ucast (p ! (j + 1)))
                 OR push_bit 8 (ucast (p ! (j + 2))) OR ucast (p ! (j + 3))"

definition schedule :: "byte list \<Rightarrow> nat \<Rightarrow> 32 word list" where
  "schedule padded chunk =
     fold (\<lambda>i w. w @ [sig1 (w ! (i - 2)) + w ! (i - 7) + sig0 (w ! (i - 15)) + w ! (i - 16)])
          [16..<64]
          (map (\<lambda>i. be_word padded (chunk + i * 4)) [0..<16])"

type_synonym sha_regs =
  "32 word \<times> 32 word \<times> 32 word \<times> 32 word \<times> 32 word \<times> 32 word \<times> 32 word \<times> 32 word"

definition sha_round :: "32 word list \<Rightarrow> nat \<Rightarrow> sha_regs \<Rightarrow> sha_regs" where
  "sha_round w i r =
     (case r of (a, b, c, d, e, f, g, h_var) \<Rightarrow>
        let t1 = h_var + ep1 e + ch e f g + k ! i + w ! i;
            t2 = ep0 a + maj a b c
        in (t1 + t2, a, b, c, d + t1, e, f, g))"

definition sha_chunk :: "byte list \<Rightarrow> nat \<Rightarrow> sha_regs \<Rightarrow> sha_regs" where
  "sha_chunk padded chunk h =
     (case h of (h0, h1, h2, h3, h4, h5, h6, h7) \<Rightarrow>
        case fold (sha_round (schedule padded chunk)) [0..<64] h of
          (a, b, c, d, e, f, g, h_var) \<Rightarrow>
            (h0 + a, h1 + b, h2 + c, h3 + d, h4 + e, h5 + f, h6 + g, h7 + h_var))"

definition word_bytes :: "32 word \<Rightarrow> byte list" where
  "word_bytes x = [ucast (drop_bit 24 x), ucast (drop_bit 16 x), ucast (drop_bit 8 x), ucast x]"

definition simple_sha256 :: "byte list \<Rightarrow> byte list" where
  "simple_sha256 dat =
     (let padded = sha_pad dat;
          h = fold (\<lambda>c. sha_chunk padded (c * 64)) [0..<length padded div 64]
                (0x6a09e667, 0xbb67ae85, 0x3c6ef372, 0xa54ff53a,
                 0x510e527f, 0x9b05688c, 0x1f83d9ab, 0x5be0cd19)
      in case h of (h0, h1, h2, h3, h4, h5, h6, h7) \<Rightarrow>
           concat (map word_bytes [h0, h1, h2, h3, h4, h5, h6, h7]))"


section \<open>Data model of \<^verbatim>\<open>rke.h\<close>\<close>

text \<open>
  \<^verbatim>\<open>struct rke_fragment_t\<close>: \<open>data\<close> stands for the 256-byte array, \<open>checksum\<close> for the
  32-byte array.
\<close>

record rke_fragment_t =
  fragment_id :: byte
  total_fragments :: byte
  threshold :: byte
  fragment_size :: "16 word"
  data :: "byte list"
  checksum :: "byte list"

text \<open>
  \<^verbatim>\<open>struct rke_key_metadata_t\<close>. Its \<^verbatim>\<open>total_fragments\<close> and \<^verbatim>\<open>threshold\<close> carry the
  prefix \<open>m_\<close>, the fragment's fields having taken the plain names.
\<close>

record rke_key_metadata_t =
  key_id :: "byte list"
  key_type :: byte
  m_total_fragments :: byte
  m_threshold :: byte
  timestamp :: "32 word"
  den :: byte
  sn :: "32 word"

abbreviation (input) RKE_MAX_KEY_SIZE :: nat where "RKE_MAX_KEY_SIZE \<equiv> 256"
abbreviation (input) RKE_MIN_THRESHOLD :: nat where "RKE_MIN_THRESHOLD \<equiv> 2"
abbreviation (input) RKE_FRAGMENT_DATA_SIZE :: nat where "RKE_FRAGMENT_DATA_SIZE \<equiv> 256"
abbreviation (input) RKE_CHECKSUM_SIZE :: nat where "RKE_CHECKSUM_SIZE \<equiv> 32"
abbreviation (input) RKE_KEY_ID_SIZE :: nat where "RKE_KEY_ID_SIZE \<equiv> 16"

abbreviation (input) RKE_SUCCESS :: int where "RKE_SUCCESS \<equiv> 0"
abbreviation (input) RKE_ERROR_INVALID_PARAM :: int where "RKE_ERROR_INVALID_PARAM \<equiv> - 1"
abbreviation (input) RKE_ERROR_MEMORY_ALLOC :: int where "RKE_ERROR_MEMORY_ALLOC \<equiv> - 2"
abbreviation (input) RKE_ERROR_CRYPTO_FAIL :: int where "RKE_ERROR_CRYPTO_FAIL \<equiv> - 3"
abbreviation (input) RKE_ERROR_STORAGE_FAIL :: int where "RKE_ERROR_STORAGE_FAIL \<equiv> - 4"
abbreviation (input) RKE_ERROR_FRAGMENT_CORRUPT :: int where "RKE_ERROR_FRAGMENT_CORRUPT \<equiv> - 5"
abbreviation (input) RKE_ERROR_INSUFFICIENT_FRAGMENTS :: int where "RKE_ERROR_INSUFFICIENT_FRAGMENTS \<equiv> - 6"

text \<open>The all-zero fragment that \<^verbatim>\<open>memset(fragment_storage, 0, ...)\<close> leaves in every slot.\<close>

definition zero_fragment :: rke_fragment_t where
  "zero_fragment = \<lparr>fragment_id = 0, total_fragments = 0, threshold = 0, fragment_size = 0,
     data = replicate RKE_FRAGMENT_DATA_SIZE 0, checksum = replicate RKE_CHECKSUM_SIZE 0\<rparr>"

section \<open>Checksums (\<^verbatim>\<open>rke_crypto.c\<close>)\<close>

text \<open>
  Pointer arguments are never \<^verbatim>\<open>NULL\<close> in the calls modelled here, so the \<^verbatim>\<open>NULL\<close>
  guards of the source are not branches of the model. \<^verbatim>\<open>rke_calculate_checksum\<close> then
  always returns \<^verbatim>\<open>RKE_SUCCESS\<close>; the model returns the fragment with its checksum set.
\<close>

definition hash_input :: "rke_fragment_t \<Rightarrow> byte list" where
  "hash_input fragment =
     [fragment_id fragment, total_fragments fragment, threshold fragment,
      ucast (drop_bit 8 (fragment_size fragment) AND 0xFF),
      ucast (fragment_size fragment AND 0xFF)]
     @ take (unat (fragment_size fragment)) (data fragment)"

definition rke_calculate_checksum :: "rke_fragment_t \<Rightarrow> rke_fragment_t" where
  "rke_calculate_checksum fragment = fragment\<lparr>checksum := simple_sha256 (hash_input fragment)\<rparr>"

definition rke_verify_checksum :: "rke_fragment_t \<Rightarrow> int" where
  "rke_verify_checksum fragment =
     (let temp_fragment =
            rke_calculate_checksum (fragment\<lparr>checksum := replicate RKE_CHECKSUM_SIZE 0\<rparr>)
      in if take RKE_CHECKSUM_SIZE (checksum fragment)
              \<noteq> take RKE_CHECKSUM_SIZE (checksum temp_fragment)
         then RKE_ERROR_FRAGMENT_CORRUPT else RKE_SUCCESS)"

section \<open>The random source (\<^verbatim>\<open>utils.h\<close>)\<close>

text \<open>
  \<^verbatim>\<open>secure_random_bytes\<close> opens \<^verbatim>\<open>/dev/urandom\<close> and reads \<open>length\<close> bytes. The device
  is the list of what its future openings deliver: \<open>None\<close> when \<^verbatim>\<open>fopen\<close> fails,
  \<open>Some bs\<close> when \<^verbatim>\<open>fread\<close> can deliver the bytes \<open>bs\<close> and no more (an exhausted list
  behaves as a failing \<^verbatim>\<open>fopen\<close>). The result is the return value, the buffer as
  written so far, and the rest of the device.
\<close>

type_synonym urandom = "byte list option list"

fun secure_random_bytes :: "byte list \<Rightarrow> nat \<Rightarrow> urandom \<Rightarrow> int \<times> byte list \<times> urandom" where
  "secure_random_bytes buffer len [] = (- 1, buffer, [])"
| "secure_random_bytes buffer len (None # dev) = (- 1, buffer, dev)"
| "secure_random_bytes buffer len (Some bs # dev) =
     (let got = take len bs
      in (if length got = len then 0 else - 1, got @ drop (length got) buffer, dev))"

section \<open>Splitting and reconstruction (\<^verbatim>\<open>rke_core.c\<close>)\<close>

text \<open>
  The file-scope variables \<^verbatim>\<open>fragment_storage[256]\<close> and \<^verbatim>\<open>fragment_count\<close>, and the
  random device the process reads.
\<close>

record rke_globals =
  fragment_storage :: "rke_fragment_t list"
  fragment_count :: int
  dev_urandom :: urandom

text \<open>The byte loop \<^verbatim>\<open>for (i = 0; i < n; i++) dst[i] ^= src[i]\<close>.\<close>

definition xor_bytes :: "byte list \<Rightarrow> byte list \<Rightarrow> nat \<Rightarrow> byte list" where
  "xor_bytes dst src n = fold (\<lambda>i d. d[i := d ! i XOR src ! i]) [0..<n] dst"

text \<open>
  The fragment loop of \<^verbatim>\<open>rke_split_key\<close>, over the remaining values of \<^verbatim>\<open>frag_id\<close>. The
  slot \<open>frag_id - 1\<close> is initialised in place; for \<open>frag_id > 1\<close> the random mask is
  written to it and then folded into the data of slot 0. A failing random read leaves the
  loop with \<^verbatim>\<open>RKE_ERROR_CRYPTO_FAIL\<close>.
\<close>

fun split_loop ::
  "byte list \<Rightarrow> 16 word \<Rightarrow> rke_key_metadata_t \<Rightarrow> nat list \<Rightarrow> rke_fragment_t list \<Rightarrow> urandom
     \<Rightarrow> int \<times> rke_fragment_t list \<times> urandom" where
  "split_loop key key_size metadata [] storage dev = (RKE_SUCCESS, storage, dev)"
| "split_loop key key_size metadata (frag_id # ids) storage dev =
     (let fragment = (storage ! (frag_id - 1))
            \<lparr>fragment_id := of_nat frag_id,
             total_fragments := m_total_fragments metadata,
             threshold := m_threshold metadata,
             fragment_size := key_size,
             data := replicate RKE_FRAGMENT_DATA_SIZE 0\<rparr>
      in if frag_id = 1 then
           split_loop key key_size metadata ids
             (storage[frag_id - 1 := fragment
                \<lparr>data := take (unat key_size) key @ drop (unat key_size) (data fragment)\<rparr>]) dev
         else
           (case secure_random_bytes (data fragment) (unat key_size) dev of
              (rv, buf, dev') \<Rightarrow>
                let storage' = storage[frag_id - 1 := fragment\<lparr>data := buf\<rparr>]
                in if rv \<noteq> 0 then (RKE_ERROR_CRYPTO_FAIL, storage', dev')
                   else split_loop key key_size metadata ids
                          (storage'[0 := (storage' ! 0)
                             \<lparr>data := xor_bytes (data (storage' ! 0)) buf (unat key_size)\<rparr>])
                          dev'))"

text \<open>The checksum loop \<^verbatim>\<open>for (i = 0; i < total_fragments; i++)\<close>.\<close>

definition checksum_loop :: "nat \<Rightarrow> rke_fragment_t list \<Rightarrow> rke_fragment_t list" where
  "checksum_loop n storage =
     fold (\<lambda>i st. st[i := rke_calculate_checksum (st ! i)]) [0..<n] storage"

text \<open>
  \<^verbatim>\<open>rke_split_key(key, key_size, metadata)\<close>: the return value and the globals it leaves.
  \<open>key\<close> holds the caller's buffer, of at least \<open>key_size\<close> bytes.
\<close>

definition rke_split_key ::
  "byte list \<Rightarrow> 16 word \<Rightarrow> rke_key_metadata_t \<Rightarrow> 'a rke_globals_scheme
     \<Rightarrow> int \<times> 'a rke_globals_scheme" where
  "rke_split_key key key_size metadata g =
     (if key_size = 0 \<or> unat key_size > RKE_MAX_KEY_SIZE then (RKE_ERROR_INVALID_PARAM, g)
      else if m_threshold metadata > m_total_fragments metadata then (RKE_ERROR_INVALID_PARAM, g)
      else if unat (m_threshold metadata) < RKE_MIN_THRESHOLD then (RKE_ERROR_INVALID_PARAM, g)
      else
        case split_loop key key_size metadata [1..<Suc (unat (m_total_fragments metadata))]
               (replicate 256 zero_fragment) (dev_urandom g) of
          (rv, storage, dev) \<Rightarrow>
            if rv \<noteq> RKE_SUCCESS
            then (rv, g\<lparr>fragment_storage := storage, fragment_count := 0, dev_urandom := dev\<rparr>)
            else (RKE_SUCCESS,
                  g\<lparr>fragment_storage := checksum_loop (unat (m_total_fragments metadata)) storage,
                    fragment_count := uint (m_total_fragments metadata),
                    dev_urandom := dev\<rparr>))"

text \<open>
  \<^verbatim>\<open>rke_reconstruct_key(key, key_size, metadata)\<close>: \<open>Inl\<close> the error code, or \<open>Inr\<close> the
  \<open>key_size\<close> bytes written to the caller's buffer. Integrity is checked for the slots
  \<open>0 ..< threshold\<close>; the masks of the slots \<open>1 ..< fragment_count\<close> are folded in.
\<close>

definition verify_loop :: "nat \<Rightarrow> rke_fragment_t list \<Rightarrow> bool" where
  "verify_loop n storage = (\<forall>i \<in> set [0..<n]. rke_verify_checksum (storage ! i) = RKE_SUCCESS)"

definition rke_reconstruct_key ::
  "16 word \<Rightarrow> rke_key_metadata_t \<Rightarrow> 'a rke_globals_scheme \<Rightarrow> int + byte list" where
  "rke_reconstruct_key key_size metadata g =
     (if key_size = 0 then Inl RKE_ERROR_INVALID_PARAM
      else if fragment_count g < uint (m_threshold metadata)
        then Inl RKE_ERROR_INSUFFICIENT_FRAGMENTS
      else if \<not> verify_loop (unat (m_threshold metadata)) (fragment_storage g)
        then Inl RKE_ERROR_FRAGMENT_CORRUPT
      else Inr (fold (\<lambda>frag_idx key. xor_bytes key (data (fragment_storage g ! frag_idx)) (unat key_size))
                  [1..<nat (fragment_count g)]
                  (take (unat key_size) (data (fragment_storage g ! 0)))))"

text \<open>\<^verbatim>\<open>rke_validate_fragment\<close>.\<close>

definition rke_validate_fragment :: "rke_fragment_t \<Rightarrow> int" where
  "rke_validate_fragment fragment =
     (if fragment_id fragment = 0 \<or> fragment_id fragment > total_fragments fragment
        then RKE_ERROR_INVALID_PARAM
      else if threshold fragment > total_fragments fragment then RKE_ERROR_INVALID_PARAM
      else if unat (fragment_size fragment) > RKE_FRAGMENT_DATA_SIZE then RKE_ERROR_INVALID_PARAM
      else RKE_SUCCESS)"

text \<open>
  \<^verbatim>\<open>rke_generate_key(key, key_size)\<close>: the return value, the key buffer and the rest of the
  random device.
\<close>

definition rke_generate_key :: "byte list \<Rightarrow> 16 word \<Rightarrow> urandom \<Rightarrow> int \<times> byte list \<times> urandom" where
  "rke_generate_key key key_size dev =
     (if key_size = 0 \<or> unat key_size > RKE_MAX_KEY_SIZE then (RKE_ERROR_INVALID_PARAM, key, dev)
      else case secure_random_bytes key (unat key_size) dev of
             (rv, key', dev') \<Rightarrow>
               if rv \<noteq> 0 then (RKE_ERROR_CRYPTO_FAIL, key', dev') else (RKE_SUCCESS, key', dev'))"

section \<open>The fragment store (\<^verbatim>\<open>rke_storage.c\<close>)\<close>

text \<open>The formats \<^verbatim>\<open>%02x\<close>, \<^verbatim>\<open>%u\<close> and \<^verbatim>\<open>%03d\<close> of the path templates.\<close>

definition hex_digit :: "nat \<Rightarrow> char" where
  "hex_digit n = ''0123456789abcdef'' ! n"

definition hex2 :: "byte \<Rightarrow> string" where
  "hex2 b = [hex_digit (unat b div 16), hex_digit (unat b mod 16)]"

fun dec :: "nat \<Rightarrow> string" where
  "dec n = (if n < 10 then [''0123456789'' ! n] else dec (n div 10) @ [''0123456789'' ! (n mod 10)])"

declare dec.simps [simp del]

definition dec3 :: "nat \<Rightarrow> string" where
  "dec3 n = replicate (3 - length (dec n)) (CHR ''0'') @ dec n"

definition rke_dir_path :: "string \<Rightarrow> byte list \<Rightarrow> string" where
  "rke_dir_path root kid =
     root @ ''/RKE/'' @ hex2 (kid ! 0) @ hex2 (kid ! 1) @ hex2 (kid ! 2) @ hex2 (kid ! 3)"

definition fragment_path :: "string \<Rightarrow> byte list \<Rightarrow> byte \<Rightarrow> string" where
  "fragment_path root kid fid = rke_dir_path root kid @ ''/fragment_'' @ dec3 (unat fid) @ ''.bin''"

definition metadata_path :: "string \<Rightarrow> byte list \<Rightarrow> string" where
  "metadata_path root kid = rke_dir_path root kid @ ''/metadata.bin''"

text \<open>
  What a file gives to one \<^verbatim>\<open>read\<close> of \<^verbatim>\<open>sizeof\<close> the record: fewer bytes than the
  record has (\<open>Short\<close>), or the whole image of a record (\<open>Whole\<close>). The image itself, with
  the padding the compiler puts between the fields, is not modelled. A coin file is read
  as bytes: \<open>ReadError\<close> when \<^verbatim>\<open>read\<close> returns a negative value, else the content.
\<close>

datatype 'a stored = Short | Whole 'a

datatype coin_file = ReadError | Content "byte list"

text \<open>
  The process and its surroundings: the globals of \<^verbatim>\<open>rke_core.c\<close>, \<^verbatim>\<open>config\<close>, the files
  (a path that is not in a map does not exist; a file that exists opens for reading), and
  what the environment decides: whether a directory can be made, a file opened for writing
  and written in whole, what \<^verbatim>\<open>time(NULL)\<close> returns and whether \<^verbatim>\<open>malloc\<close> succeeds.

  The examples' collaborators are not part of this repository (\<^verbatim>\<open>db.h\<close>,
  \<^verbatim>\<open>commands.h\<close>); they are fields of the same record: \<open>page_of den sn\<close> is the page
  that \<^verbatim>\<open>get_page_by_sn_lock\<close> returns (\<open>None\<close> for \<^verbatim>\<open>NULL\<close>), \<open>page_data\<close> and
  \<open>page_dirty\<close> its \<^verbatim>\<open>data\<close> and \<^verbatim>\<open>is_dirty\<close>, \<open>records_per_page\<close> the macro
  \<^verbatim>\<open>RECORDS_PER_PAGE\<close>, \<open>mfs_now\<close> the value of \<^verbatim>\<open>get_mfs()\<close>, \<open>rand_value\<close> the value of
  \<^verbatim>\<open>rand()\<close> after \<^verbatim>\<open>srand(time(NULL))\<close>. Page locks are not modelled.
  \<open>char_is_signed\<close> is the signedness the C implementation gives to plain \<^verbatim>\<open>char\<close>
  (signed on x86 and x86-64 with gcc and clang).
\<close>

record world = rke_globals +
  cwd :: string
  coin_id :: "16 word"
  frag_files :: "string \<rightharpoonup> rke_fragment_t stored"
  meta_files :: "string \<rightharpoonup> rke_key_metadata_t stored"
  coin_files :: "string \<rightharpoonup> coin_file"
  mkdir_ok :: "string \<Rightarrow> bool"
  open_ok :: "string \<Rightarrow> bool"
  write_ok :: "string \<Rightarrow> bool"
  clock :: "32 word"
  malloc_ok :: bool
  char_is_signed :: bool
  page_of :: "byte \<Rightarrow> 32 word \<Rightarrow> nat option"
  page_data :: "nat \<Rightarrow> byte list"
  page_dirty :: "nat \<Rightarrow> bool"
  records_per_page :: nat
  mfs_now :: byte
  rand_value :: int

definition rke_store_fragment :: "rke_fragment_t \<Rightarrow> byte list \<Rightarrow> world \<Rightarrow> int \<times> world" where
  "rke_store_fragment fragment kid w =
     (let dir_path = rke_dir_path (cwd w) kid;
          path = fragment_path (cwd w) kid (fragment_id fragment)
      in if rke_validate_fragment fragment \<noteq> RKE_SUCCESS then (RKE_ERROR_INVALID_PARAM, w)
         else if \<not> mkdir_ok w dir_path then (RKE_ERROR_STORAGE_FAIL, w)
         else if \<not> open_ok w path then (RKE_ERROR_STORAGE_FAIL, w)
         else if \<not> write_ok w path
           then (RKE_ERROR_STORAGE_FAIL, w\<lparr>frag_files := (frag_files w)(path \<mapsto> Short)\<rparr>)
         else (RKE_SUCCESS, w\<lparr>frag_files := (frag_files w)(path \<mapsto> Whole fragment)\<rparr>))"

text \<open>
  \<^verbatim>\<open>rke_load_fragment(fragment, key_id, fragment_id)\<close>: \<open>Inl\<close> the error code, \<open>Inr\<close> the
  fragment read on \<^verbatim>\<open>RKE_SUCCESS\<close>.
\<close>

definition rke_load_fragment :: "byte list \<Rightarrow> byte \<Rightarrow> world \<Rightarrow> int + rke_fragment_t" where
  "rke_load_fragment kid fid w =
     (if fid = 0 then Inl RKE_ERROR_INVALID_PARAM
      else case frag_files w (fragment_path (cwd w) kid fid) of
             None \<Rightarrow> Inl RKE_ERROR_STORAGE_FAIL
           | Some Short \<Rightarrow> Inl RKE_ERROR_STORAGE_FAIL
           | Some (Whole fragment) \<Rightarrow>
               if rke_validate_fragment fragment \<noteq> RKE_SUCCESS then Inl RKE_ERROR_FRAGMENT_CORRUPT
               else if fragment_id fragment \<noteq> fid then Inl RKE_ERROR_FRAGMENT_CORRUPT
               else Inr fragment)"

definition rke_store_metadata :: "rke_key_metadata_t \<Rightarrow> world \<Rightarrow> int \<times> world" where
  "rke_store_metadata metadata w =
     (let dir_path = rke_dir_path (cwd w) (key_id metadata);
          path = metadata_path (cwd w) (key_id metadata)
      in if \<not> mkdir_ok w dir_path then (RKE_ERROR_STORAGE_FAIL, w)
         else if \<not> open_ok w path then (RKE_ERROR_STORAGE_FAIL, w)
         else if \<not> write_ok w path
           then (RKE_ERROR_STORAGE_FAIL, w\<lparr>meta_files := (meta_files w)(path \<mapsto> Short)\<rparr>)
         else (RKE_SUCCESS, w\<lparr>meta_files := (meta_files w)(path \<mapsto> Whole metadata)\<rparr>))"

text \<open>
  \<^verbatim>\<open>rke_load_metadata(metadata, key_id)\<close>: the file is found by the first four bytes of
  the key id; \<^verbatim>\<open>memcmp\<close> then compares all \<^verbatim>\<open>RKE_KEY_ID_SIZE\<close> bytes.
\<close>

definition rke_load_metadata :: "byte list \<Rightarrow> world \<Rightarrow> int + rke_key_metadata_t" where
  "rke_load_metadata kid w =
     (case meta_files w (metadata_path (cwd w) kid) of
        None \<Rightarrow> Inl RKE_ERROR_STORAGE_FAIL
      | Some Short \<Rightarrow> Inl RKE_ERROR_STORAGE_FAIL
      | Some (Whole metadata) \<Rightarrow>
          if take RKE_KEY_ID_SIZE (key_id metadata) \<noteq> take RKE_KEY_ID_SIZE kid
          then Inl RKE_ERROR_FRAGMENT_CORRUPT
          else Inr metadata)"

definition rke_fragment_exists :: "byte list \<Rightarrow> byte \<Rightarrow> world \<Rightarrow> int" where
  "rke_fragment_exists kid fid w =
     (if fid = 0 then 0
      else if frag_files w (fragment_path (cwd w) kid fid) \<noteq> None then 1 else 0)"

definition rke_count_fragments :: "byte list \<Rightarrow> world \<Rightarrow> int" where
  "rke_count_fragments kid w =
     fold (\<lambda>i count. if rke_fragment_exists kid (of_nat i) w \<noteq> 0 then count + 1 else count)
       [1..<256] 0"

section \<open>Protocol commands (\<^verbatim>\<open>rke_protocol.c\<close>)\<close>

abbreviation (input) STATUS_SUCCESS :: int where "STATUS_SUCCESS \<equiv> 0"
abbreviation (input) NO_ERROR :: int where "NO_ERROR \<equiv> 0"
abbreviation (input) ERROR_INVALID_PACKET_LENGTH :: int where "ERROR_INVALID_PACKET_LENGTH \<equiv> - 1"
abbreviation (input) ERROR_INVALID_SN_OR_DENOMINATION :: int where
  "ERROR_INVALID_SN_OR_DENOMINATION \<equiv> - 2"
abbreviation (input) ERROR_MEMORY_ALLOC :: int where "ERROR_MEMORY_ALLOC \<equiv> - 3"
abbreviation (input) ERROR_INVALID_PARAMETER :: int where "ERROR_INVALID_PARAMETER \<equiv> - 4"
abbreviation (input) ERROR_FILESYSTEM :: int where "ERROR_FILESYSTEM \<equiv> - 5"
abbreviation (input) ERROR_COIN_LOAD :: int where "ERROR_COIN_LOAD \<equiv> - 6"
abbreviation (input) ERROR_COINS_NOT_DIV :: int where "ERROR_COINS_NOT_DIV \<equiv> - 7"
abbreviation (input) ERROR_KEY_GENERATION :: int where "ERROR_KEY_GENERATION \<equiv> - 11"
abbreviation (input) ERROR_KEY_SPLITTING :: int where "ERROR_KEY_SPLITTING \<equiv> - 12"

text \<open>
  What a handler leaves at \<^verbatim>\<open>ci->output\<close>: plain bytes, the image of a fragment record,
  or (for the query) the image of a metadata record followed by the 32-byte bitmap.
\<close>

datatype out_buf =
    Bytes "byte list"
  | FragmentImage rke_fragment_t
  | MetadataAndMap rke_key_metadata_t "byte list"

text \<open>\<^verbatim>\<open>conn_info_t\<close> of \<^verbatim>\<open>protocol.h\<close>. The field \<^verbatim>\<open>output\<close> is \<open>output_buf\<close> here, \<open>None\<close>
  standing for the \<^verbatim>\<open>NULL\<close> pointer. Where \<open>output_size\<close> is a \<^verbatim>\<open>sizeof\<close>, the number is
  the one of the usual ABI: 294 for a fragment record, 32 for a metadata record.\<close>

record conn_info_t =
  body :: "byte list"
  body_size :: "32 word"
  output_buf :: "out_buf option"
  output_size :: "32 word"
  command_status :: int
  nonce :: "byte list"

definition get_body_payload :: "conn_info_t \<Rightarrow> byte list" where
  "get_body_payload ci = body ci"

text \<open>
  \<^verbatim>\<open>get_sn(payload)\<close> reads four bytes in host order through a \<^verbatim>\<open>uint32_t\<close> pointer;
  the model is the little-endian host.
\<close>

definition get_sn :: "byte list \<Rightarrow> 32 word" where
  "get_sn p = ucast (p ! 0) OR push_bit 8 (ucast (p ! 1)) OR push_bit 16 (ucast (p ! 2))
              OR push_bit 24 (ucast (p ! 3))"

text \<open>
  \<^verbatim>\<open>cmd_rke_generate\<close>. The key buffer is uninitialised before \<^verbatim>\<open>rke_generate_key\<close> fills
  all of it; the model starts it as zeros.
\<close>

definition cmd_rke_generate :: "conn_info_t \<Rightarrow> world \<Rightarrow> conn_info_t \<times> world" where
  "cmd_rke_generate ci w =
     (let payload = get_body_payload ci in
      if body_size ci \<noteq> 21 then (ci\<lparr>command_status := ERROR_INVALID_PACKET_LENGTH\<rparr>, w)
      else
        let metadata = \<lparr>key_id = take RKE_KEY_ID_SIZE payload, key_type = payload ! 16,
                         m_total_fragments = payload ! 17, m_threshold = payload ! 18,
                         timestamp = clock w, den = 0, sn = 0\<rparr>
        in if m_threshold metadata > m_total_fragments metadata
             then (ci\<lparr>command_status := ERROR_INVALID_PARAMETER\<rparr>, w)
           else if m_total_fragments metadata = 0
             then (ci\<lparr>command_status := ERROR_INVALID_PARAMETER\<rparr>, w)
           else if unat (m_threshold metadata) < RKE_MIN_THRESHOLD
             then (ci\<lparr>command_status := ERROR_INVALID_PARAMETER\<rparr>, w)
           else
             case rke_generate_key (replicate RKE_MAX_KEY_SIZE 0) 256 (dev_urandom w) of
               (rv, key, dev) \<Rightarrow>
                 let w1 = w\<lparr>dev_urandom := dev\<rparr> in
                 if rv \<noteq> RKE_SUCCESS then (ci\<lparr>command_status := ERROR_KEY_GENERATION\<rparr>, w1)
                 else
                   case rke_split_key key 256 metadata w1 of
                     (rv2, w2) \<Rightarrow>
                       if rv2 \<noteq> RKE_SUCCESS then (ci\<lparr>command_status := ERROR_KEY_SPLITTING\<rparr>, w2)
                       else
                         case rke_store_metadata metadata w2 of
                           (rv3, w3) \<Rightarrow>
                             if rv3 \<noteq> RKE_SUCCESS
                               then (ci\<lparr>command_status := ERROR_FILESYSTEM\<rparr>, w3)
                             else if \<not> malloc_ok w3
                               then (ci\<lparr>output_size := 1, output_buf := None,
                                        command_status := ERROR_MEMORY_ALLOC\<rparr>, w3)
                             else (ci\<lparr>output_size := 1, output_buf := Some (Bytes [0x01]),
                                      command_status := STATUS_SUCCESS\<rparr>, w3))"

definition cmd_rke_exchange :: "conn_info_t \<Rightarrow> world \<Rightarrow> conn_info_t" where
  "cmd_rke_exchange ci w =
     (let payload = get_body_payload ci in
      if body_size ci < 19 then ci\<lparr>command_status := ERROR_INVALID_PACKET_LENGTH\<rparr>
      else
        let kid = take RKE_KEY_ID_SIZE payload; fid = payload ! RKE_KEY_ID_SIZE
        in if rke_fragment_exists kid fid w \<noteq> 0 then
             (case rke_load_fragment kid fid w of
                Inl e \<Rightarrow> ci\<lparr>command_status := ERROR_FILESYSTEM\<rparr>
              | Inr fragment \<Rightarrow>
                  if \<not> malloc_ok w
                    then ci\<lparr>output_size := 294, output_buf := None,
                            command_status := ERROR_MEMORY_ALLOC\<rparr>
                  else ci\<lparr>output_size := 294, output_buf := Some (FragmentImage fragment),
                          command_status := STATUS_SUCCESS\<rparr>)
           else ci\<lparr>command_status := ERROR_INVALID_PARAMETER\<rparr>)"

text \<open>
  The loading loop of \<^verbatim>\<open>cmd_rke_reconstruct\<close>: each fragment \<open>1 .. threshold\<close> that
  exists is loaded into a local variable that goes out of scope at the end of the
  iteration; only a failing load is observed.
\<close>

definition load_required :: "byte list \<Rightarrow> nat \<Rightarrow> world \<Rightarrow> bool" where
  "load_required kid thr w =
     (\<forall>i \<in> set [1..<Suc thr].
        rke_fragment_exists kid (of_nat i) w \<noteq> 0 \<longrightarrow>
        (case rke_load_fragment kid (of_nat i) w of Inl e \<Rightarrow> False | Inr f \<Rightarrow> True))"

definition cmd_rke_reconstruct :: "conn_info_t \<Rightarrow> world \<Rightarrow> conn_info_t" where
  "cmd_rke_reconstruct ci w =
     (let payload = get_body_payload ci in
      if body_size ci \<noteq> 18 then ci\<lparr>command_status := ERROR_INVALID_PACKET_LENGTH\<rparr>
      else
        let kid = take RKE_KEY_ID_SIZE payload in
        case rke_load_metadata kid w of
          Inl e \<Rightarrow> ci\<lparr>command_status := ERROR_FILESYSTEM\<rparr>
        | Inr metadata \<Rightarrow>
            if rke_count_fragments kid w < uint (m_threshold metadata)
              then ci\<lparr>command_status := ERROR_INVALID_PARAMETER\<rparr>
            else if \<not> load_required kid (unat (m_threshold metadata)) w
              then ci\<lparr>command_status := ERROR_FILESYSTEM\<rparr>
            else
              case rke_reconstruct_key 256 metadata w of
                Inl e \<Rightarrow> ci\<lparr>command_status := ERROR_KEY_GENERATION\<rparr>
              | Inr reconstructed_key \<Rightarrow>
                  if \<not> malloc_ok w
                    then ci\<lparr>output_size := 256, output_buf := None,
                            command_status := ERROR_MEMORY_ALLOC\<rparr>
                  else ci\<lparr>output_size := 256, output_buf := Some (Bytes reconstructed_key),
                          command_status := STATUS_SUCCESS\<rparr>)"

text \<open>
  The bitmap loop of \<^verbatim>\<open>cmd_rke_query\<close>:
  \<^verbatim>\<open>fragment_map[(i - 1) / 8] |= (1 << ((i - 1) % 8))\<close> for each \<open>i\<close> that exists.
\<close>

definition fragment_map_loop :: "byte list \<Rightarrow> nat \<Rightarrow> world \<Rightarrow> byte list" where
  "fragment_map_loop kid n w =
     fold (\<lambda>i fragment_map.
             if rke_fragment_exists kid (of_nat i) w \<noteq> 0
             then fragment_map[(i - 1) div 8 :=
                    fragment_map ! ((i - 1) div 8) OR push_bit ((i - 1) mod 8) 1]
             else fragment_map)
       [1..<Suc n] (replicate 32 0)"

definition cmd_rke_query :: "conn_info_t \<Rightarrow> world \<Rightarrow> conn_info_t" where
  "cmd_rke_query ci w =
     (let payload = get_body_payload ci in
      if body_size ci \<noteq> 18 then ci\<lparr>command_status := ERROR_INVALID_PACKET_LENGTH\<rparr>
      else
        let kid = take RKE_KEY_ID_SIZE payload in
        case rke_load_metadata kid w of
          Inl e \<Rightarrow> ci\<lparr>command_status := ERROR_FILESYSTEM\<rparr>
        | Inr metadata \<Rightarrow>
            let fragment_map = fragment_map_loop kid (unat (m_total_fragments metadata)) w in
            if \<not> malloc_ok w
              then ci\<lparr>output_size := 64, output_buf := None, command_status := ERROR_MEMORY_ALLOC\<rparr>
            else ci\<lparr>output_size := 64, output_buf := Some (MetadataAndMap metadata fragment_map),
                    command_status := STATUS_SUCCESS\<rparr>)"

section \<open>The encryption-coin commands (\<^verbatim>\<open>examples/cmd_key_exechange.c\<close>)\<close>

text \<open>\<^verbatim>\<open>memcpy(dst + doff, src + soff, n)\<close>, byte by byte.\<close>

definition memcpy :: "byte list \<Rightarrow> nat \<Rightarrow> byte list \<Rightarrow> nat \<Rightarrow> nat \<Rightarrow> byte list" where
  "memcpy dst doff src soff n = fold (\<lambda>i d. d[doff + i := src ! (soff + i)]) [0..<n] dst"

text \<open>C's \<^verbatim>\<open>%\<close> and \<^verbatim>\<open>/\<close> on \<^verbatim>\<open>int\<close> truncate towards zero.\<close>

definition c_rem :: "int \<Rightarrow> int \<Rightarrow> int" where
  "c_rem a b = sgn a * (\<bar>a\<bar> mod \<bar>b\<bar>)"

definition c_div :: "int \<Rightarrow> int \<Rightarrow> int" where
  "c_div a b = sgn a * sgn b * (\<bar>a\<bar> div \<bar>b\<bar>)"

text \<open>The value of a plain \<^verbatim>\<open>char\<close> once promoted to \<^verbatim>\<open>int\<close>.\<close>

definition char_value :: "bool \<Rightarrow> byte \<Rightarrow> int" where
  "char_value is_signed c = (if is_signed then sint c else uint c)"

definition coin_path :: "string \<Rightarrow> byte \<Rightarrow> 32 word \<Rightarrow> string" where
  "coin_path root dn s = root @ ''/coins/'' @ hex2 dn @ ''.'' @ dec (unat s) @ ''.bin''"

text \<open>
  \<^verbatim>\<open>load_my_enc_coin(den, sn, buf)\<close>: the return value and the caller's buffer.
  \<^verbatim>\<open>tmp_buf\<close> is an array of plain \<^verbatim>\<open>char\<close>; \<^verbatim>\<open>tmp_buf[2] << 8 | tmp_buf[3]\<close> is computed
  on the promoted values and then converted to \<^verbatim>\<open>uint16_t\<close>.
\<close>

definition load_my_enc_coin :: "byte \<Rightarrow> 32 word \<Rightarrow> byte list \<Rightarrow> world \<Rightarrow> int \<times> byte list" where
  "load_my_enc_coin dn s buf w =
     (case coin_files w (coin_path (cwd w) dn s) of
        None \<Rightarrow> (- 1, buf)
      | Some ReadError \<Rightarrow> (- 1, buf)
      | Some (Content bs) \<Rightarrow>
          let tmp_buf = take 440 bs; rv = length tmp_buf in
          if rv \<noteq> 440 then (- 1, buf)
          else
            let cid :: 16 word =
                  word_of_int (push_bit 8 (char_value (char_is_signed w) (tmp_buf ! 2))
                               OR char_value (char_is_signed w) (tmp_buf ! 3))
            in if cid \<noteq> coin_id w then (- 1, buf)
               else (0, memcpy buf 0 tmp_buf 40 400))"

text \<open>
  The sixteen bytes that \<^verbatim>\<open>cmd_encrypt_key\<close> builds in \<^verbatim>\<open>ci->output\<close> before the stream
  transform. \<open>dn\<close> is the \<^verbatim>\<open>int8_t den\<close>, stored back as a byte; \<open>r0\<close> the random draw.
\<close>

definition encrypt_key_plain :: "byte list \<Rightarrow> byte \<Rightarrow> int \<Rightarrow> byte list" where
  "encrypt_key_plain payload dn r0 =
     (let out0 = replicate 16 0;
          out1 = memcpy out0 0 payload 5 8;
          out2 = out1[8 := dn];
          out3 = memcpy out2 (8 + 1) payload 1 4;
          out4 = out3[8 + 1 + 4 := word_of_int (drop_bit 8 r0 AND 0xff)];
          out5 = out4[8 + 1 + 4 + 1 := word_of_int (r0 AND 0xff)]
      in out5[15 := 0xff])"

definition cmd_encrypt_key :: "conn_info_t \<Rightarrow> world \<Rightarrow> conn_info_t" where
  "cmd_encrypt_key ci w =
     (let payload = get_body_payload ci in
      if body_size ci \<noteq> 31 then ci\<lparr>command_status := ERROR_INVALID_PACKET_LENGTH\<rparr>
      else
        let dn = payload ! 0; s = get_sn (drop 1 payload) in
        case page_of w dn s of
          None \<Rightarrow> ci\<lparr>command_status := ERROR_INVALID_SN_OR_DENOMINATION\<rparr>
        | Some page \<Rightarrow>
            let sn_idx = unat s mod records_per_page w;
                aen = take 16 (drop (sn_idx * 17) (page_data w page))
            in if \<not> malloc_ok w
                 then ci\<lparr>output_size := 16, output_buf := None,
                         command_status := ERROR_MEMORY_ALLOC\<rparr>
               else ci\<lparr>output_size := 16,
                       output_buf := Some (Bytes (crypt_ctr aen
                                       (encrypt_key_plain payload dn (rand_value w)) 16 (nonce ci))),
                       command_status := NO_ERROR\<rparr>)"

text \<open>
  One iteration of the block loop of \<^verbatim>\<open>cmd_decrypt_raida_key\<close>, on the payload (the key
  block is decrypted in place), the result bytes and the pages. \<^verbatim>\<open>den\<close> is an \<^verbatim>\<open>int8_t\<close>
  and \<^verbatim>\<open>dec_den\<close> a \<^verbatim>\<open>uint8_t\<close>: their comparison is one of promoted values. The key
  handed to \<^verbatim>\<open>crypt_ctr\<close> is \<^verbatim>\<open>&aens[da]\<close>.
\<close>

definition decrypt_block ::
  "byte list \<Rightarrow> byte \<Rightarrow> byte list \<Rightarrow> nat \<Rightarrow> byte list \<times> byte list \<times> world
     \<Rightarrow> byte list \<times> byte list \<times> world" where
  "decrypt_block aens mfs nonce0 i st =
     (case st of (payload, out, w) \<Rightarrow>
        let split_id = payload ! (21 + i * 26 + 2);
            da = payload ! (21 + i * 26 + 3);
            dn = payload ! (21 + i * 26 + 5);
            s = get_sn (drop (21 + i * 26 + 6) payload)
        in if da > 24 then (payload, out[i := 0x0], w)
           else if split_id \<noteq> 0 \<and> split_id \<noteq> 1 then (payload, out[i := 0x0], w)
           else
             case page_of w dn s of
               None \<Rightarrow> (payload, out[i := 0x0], w)
             | Some page0 \<Rightarrow>
                 let ky = crypt_ctr (drop (unat da) aens)
                            (take 16 (drop (21 + i * 26 + 10) payload)) 16 nonce0;
                     payload' = memcpy payload (21 + i * 26 + 10) ky 0 16
                 in if ky ! 15 \<noteq> 0xff then (payload', out[i := 0x0], w)
                    else
                      let dec_den = ky ! 8; dec_sn = get_sn (drop 9 ky)
                      in if uint dec_den \<noteq> sint dn \<or> dec_sn \<noteq> s
                           then (payload', out[i := 0x0], w)
                         else
                           case page_of w dn s of
                             None \<Rightarrow> (payload', out[i := 0x0], w)
                           | Some page \<Rightarrow>
                               let sn_idx = unat s mod records_per_page w;
                                   d1 = memcpy (page_data w page)
                                          (sn_idx * 17 + unat split_id * 8) ky 0 8;
                                   d2 = d1[sn_idx * 17 + 16 := mfs]
                               in (payload', out[i := 0x1],
                                   w\<lparr>page_data := (page_data w)(page := d2),
                                     page_dirty := (page_dirty w)(page := True)\<rparr>))"

text \<open>
  \<^verbatim>\<open>cmd_decrypt_raida_key\<close>. \<^verbatim>\<open>coin_length\<close> and \<^verbatim>\<open>total_coins\<close> are \<^verbatim>\<open>int\<close>, assigned
  from the \<^verbatim>\<open>uint32_t\<close> difference \<^verbatim>\<open>ci->body_size - 23\<close>. \<^verbatim>\<open>malloc\<close> of a negative
  \<^verbatim>\<open>total_coins\<close> asks for more than \<open>2 ^ 63\<close> bytes and fails. \<^verbatim>\<open>aens\<close> is
  uninitialised before the coin is loaded; the model starts it as zeros.
\<close>

definition cmd_decrypt_raida_key :: "conn_info_t \<Rightarrow> world \<Rightarrow> conn_info_t \<times> world" where
  "cmd_decrypt_raida_key ci w =
     (let payload = get_body_payload ci in
      if body_size ci < 49 then (ci\<lparr>command_status := ERROR_INVALID_PACKET_LENGTH\<rparr>, w)
      else
        let coin_length = sint (body_size ci - 23) in
        if c_rem coin_length 26 \<noteq> 0 then (ci\<lparr>command_status := ERROR_COINS_NOT_DIV\<rparr>, w)
        else
          let total_coins = c_div coin_length 26;
              dn = payload ! 0;
              s = get_sn (drop 1 payload);
              mfs = mfs_now w
          in case load_my_enc_coin dn s (replicate (16 * 25) 0) w of
               (rv, aens) \<Rightarrow>
                 if rv < 0 then (ci\<lparr>command_status := ERROR_COIN_LOAD\<rparr>, w)
                 else if \<not> malloc_ok w \<or> total_coins < 0
                   then (ci\<lparr>output_buf := None, command_status := ERROR_MEMORY_ALLOC\<rparr>, w)
                 else
                   case fold (decrypt_block aens mfs (nonce ci)) [0..<nat total_coins]
                          (payload, replicate (nat total_coins) 0, w) of
                     (payload', out, w') \<Rightarrow>
                       (ci\<lparr>body := payload', output_buf := Some (Bytes out),
                           command_status := STATUS_SUCCESS,
                           output_size := word_of_int total_coins\<rparr>, w'))"

section \<open>Notions the properties are stated with\<close>

text \<open>The XOR of the first \<open>L\<close> data bytes of a list of fragments.\<close>

definition fragments_xor :: "nat \<Rightarrow> rke_fragment_t list \<Rightarrow> byte list" where
  "fragments_xor L fs = fold (\<lambda>f acc. map2 (XOR) acc (take L (data f))) fs (replicate L 0)"

abbreviation xr :: "byte list \<Rightarrow> byte list \<Rightarrow> byte list" where
  "xr r acc \<equiv> map2 (XOR) acc r"

section \<open>Concrete inputs\<close>

definition demo_key :: "byte list" where "demo_key = [0xAA, 0x55]"

definition demo_metadata :: rke_key_metadata_t where
  "demo_metadata = \<lparr>key_id = replicate 16 0, key_type = 1, m_total_fragments = 3,
     m_threshold = 2, timestamp = 0, den = 0, sn = 0\<rparr>"

definition demo_globals :: rke_globals where
  "demo_globals = \<lparr>fragment_storage = replicate 256 zero_fragment, fragment_count = 0,
     dev_urandom = [Some [1, 2], Some [3, 4]]\<rparr>"

definition demo_world :: world where
  "demo_world = \<lparr>fragment_storage = replicate 256 zero_fragment, fragment_count = 0,
     dev_urandom = [],
     cwd = ''/tmp/rke_test'', coin_id = 0x0080,
     frag_files = Map.empty, meta_files = Map.empty, coin_files = Map.empty,
     mkdir_ok = (\<lambda>p. True), open_ok = (\<lambda>p. True), write_ok = (\<lambda>p. True),
     clock = 0, malloc_ok = True, char_is_signed = True,
     page_of = (\<lambda>d s. None), page_data = (\<lambda>p. []), page_dirty = (\<lambda>p. False),
     records_per_page = 1024, mfs_now = 7, rand_value = 0x1234\<rparr>"

definition demo_key_id :: "byte list" where
  "demo_key_id = [0x00, 0x01, 0x02, 0x03, 0x04, 0x05, 0x06, 0x07,
                  0x08, 0x09, 0x0a, 0x0b, 0x0c, 0x0d, 0x0e, 0x0f]"

text \<open>A metadata record filed under the same directory prefix, whose key id differs in its last byte.\<close>

definition other_metadata :: rke_key_metadata_t where
  "other_metadata = \<lparr>key_id = demo_key_id[15 := 0xff], key_type = 1, m_total_fragments = 5,
     m_threshold = 3, timestamp = 0, den = 0, sn = 0\<rparr>"

definition signed_coin_file :: "byte list" where
  "signed_coin_file = [0x00, 0x00, 0x00, 0x80] @ replicate 436 0"

definition coin_world :: world where
  "coin_world = demo_world
     \<lparr>coin_files := [coin_path ''/tmp/rke_test'' 1 100 \<mapsto> Content signed_coin_file]\<rparr>"

text \<open>The table of peer secrets of the coin \<open>01.100\<close>: byte \<open>j\<close> of the table is \<open>j mod 256\<close>.\<close>

definition peer_table :: "byte list" where
  "peer_table = map of_nat [0..<400]"

definition dec_world :: world where
  "dec_world = demo_world
     \<lparr>coin_id := 1,
      coin_files := [coin_path ''/tmp/rke_test'' 1 100 \<mapsto>
                       Content ([0x00, 0x00, 0x00, 0x01] @ replicate 36 0 @ peer_table)],
      page_of := (\<lambda>d s. if d = 1 \<and> s = 100 then Some 0 else None),
      page_data := (\<lambda>p. replicate (1024 * 17) 0)\<rparr>"

text \<open>
  A key block in the clear: eight key bytes, the coin \<open>01.100\<close>, two random bytes, \<open>0xff\<close>.
\<close>

definition key_plain :: "byte list" where
  "key_plain = [0xb1, 0xb2, 0xb3, 0xb4, 0xb5, 0xb6, 0xb7, 0xb8, 0x01, 0x64, 0x00, 0x00, 0x00,
     0x12, 0x34, 0xff]"

text \<open>
  Two requests with one block each, for peer \<open>da = 1\<close>, split 0 and the coin \<open>01.100\<close>:
  in the first the key block is \<open>key_plain\<close> under the secret of peer 1 (table bytes
  16..31), in the second it is \<open>key_plain\<close> under the table bytes 1..16. The nonce is zero.
\<close>

definition body_peer1 :: "byte list" where
  "body_peer1 =
     [0x01, 0x64, 0x00, 0x00, 0x00, 0x00, 0x00, 0x00, 0x00, 0x00, 0x00, 0x00, 0x00,
     0x00, 0x00, 0x00, 0x00, 0x00, 0x00, 0x00, 0x00, 0x00, 0x00, 0x00, 0x01, 0x00,
     0x01, 0x64, 0x00, 0x00, 0x00, 0xa1, 0xa3, 0xa1, 0xa7, 0xa1, 0xa3, 0xa1, 0xaf,
     0x19, 0x7d, 0x1a, 0x1b, 0x1c, 0x0f, 0x2a, 0xe0, 0xff, 0xff]"

definition body_shifted :: "byte list" where
  "body_shifted =
     [0x01, 0x64, 0x00, 0x00, 0x00, 0x00, 0x00, 0x00, 0x00, 0x00, 0x00, 0x00, 0x00,
     0x00, 0x00, 0x00, 0x00, 0x00, 0x00, 0x00, 0x00, 0x00, 0x00, 0x00, 0x01, 0x00,
     0x01, 0x64, 0x00, 0x00, 0x00, 0xb0, 0xb0, 0xb0, 0xb0, 0xb0, 0xb0, 0xb0, 0xb0,
     0x08, 0x6e, 0x0b, 0x0c, 0x0d, 0x1c, 0x3b, 0xef, 0xff, 0xff]"

definition dec_request :: "byte list \<Rightarrow> conn_info_t" where
  "dec_request b = \<lparr>body = b, body_size = 49, output_buf = None, output_size = 0,
     command_status = 0, nonce = replicate 16 0\<rparr>"

text \<open>
  An \<open>encrypt_key\<close> request of 31 bytes. Its bytes 16..20, after the sixteen bytes of
  challenge, name the coin of denomination \<open>0x02\<close> and serial number \<open>0x09090909\<close>; its
  bytes 0..4, inside the challenge, read as denomination \<open>0x01\<close> and serial number 100.
  \<open>enc_world\<close> has a page for the coin \<open>01.100\<close> only, \<open>named_coin_world\<close> for the coin
  \<open>02.0x09090909\<close> only.
\<close>

definition enc_request :: conn_info_t where
  "enc_request = \<lparr>body =
     [0x01, 0x64, 0x00, 0x00, 0x00, 0xa1, 0xa2, 0xa3, 0xa4, 0xa5, 0xa6, 0xa7, 0xa8,
     0x00, 0x00, 0x00, 0x02, 0x09, 0x09, 0x09, 0x09, 0x00, 0x00, 0x00, 0x00, 0x00,
     0x00, 0x00, 0x00, 0xff, 0xff],
     body_size = 31, output_buf = None, output_size = 0, command_status = 0,
     nonce = replicate 16 0\<rparr>"

definition enc_world :: world where
  "enc_world = demo_world
     \<lparr>page_of := (\<lambda>d s. if d = 1 \<and> s = 100 then Some 0 else None),
      page_data := (\<lambda>p. replicate (1024 * 17) 0x5A)\<rparr>"

definition named_coin_world :: world where
  "named_coin_world = demo_world
     \<lparr>page_of := (\<lambda>d s. if d = 2 \<and> s = 0x09090909 then Some 0 else None),
      page_data := (\<lambda>p. replicate (1024 * 17) 0x5A)\<rparr>"

text \<open>
  A request of \<open>2 ^ 31 + 25\<close> zero bytes, that is 82595525 blocks of 26 bytes after the
  23 bytes of frame, and a world in which the coin \<open>00.0\<close> it names loads.
\<close>

definition huge_request :: conn_info_t where
  "huge_request = \<lparr>body = replicate 2147483673 0, body_size = 2147483673, output_buf = None,
     output_size = 0, command_status = 0, nonce = replicate 16 0\<rparr>"

definition huge_world :: world where
  "huge_world = demo_world
     \<lparr>coin_id := 1,
      coin_files := [coin_path ''/tmp/rke_test'' 0 0 \<mapsto>
                       Content ([0x00, 0x00, 0x00, 0x01] @ replicate 36 0 @ peer_table)]\<rparr>"

text \<open>
  The globals after splitting \<open>demo_key\<close> into three fragments with threshold two, and
  the same globals with the first checksum byte of the third fragment changed.
\<close>

definition split_globals :: rke_globals where
  "split_globals = snd (rke_split_key demo_key 2 demo_metadata demo_globals)"

definition damage :: "rke_fragment_t \<Rightarrow> rke_fragment_t" where
  "damage f = f\<lparr>checksum := (checksum f)[0 := checksum f ! 0 XOR 1]\<rparr>"

definition damaged_globals :: rke_globals where
  "damaged_globals = split_globals
     \<lparr>fragment_storage := (fragment_storage split_globals)
        [2 := damage (fragment_storage split_globals ! 2)]\<rparr>"

text \<open>
  The generate request of the first scenario (key id \<open>00 .. 0f\<close>, symmetric, five
  fragments, threshold three), the query for the same key, and a world without files in
  which the random device delivers.
\<close>

definition gen_request :: conn_info_t where
  "gen_request = \<lparr>body = demo_key_id @ [0x01, 5, 3, 0xff, 0xff], body_size = 21,
     output_buf = None, output_size = 0, command_status = 0, nonce = replicate 16 0\<rparr>"

definition query_request :: conn_info_t where
  "query_request = \<lparr>body = demo_key_id @ [0xff, 0xff], body_size = 18,
     output_buf = None, output_size = 0, command_status = 0, nonce = replicate 16 0\<rparr>"

definition gen_world :: world where
  "gen_world = demo_world
     \<lparr>dev_urandom := [Some (replicate 256 0x11), Some (replicate 256 0x22),
        Some (replicate 256 0x33), Some (replicate 256 0x44), Some (replicate 256 0x55)]\<rparr>"

text \<open>
  The world after the generate request of the first scenario, with files for the
  fragments 1, 2 and 3 put into the store. \<open>stored_fragment fid b\<close> is a record that names
  itself fragment \<open>fid\<close> of five, with data bytes \<open>b\<close>; the file of fragment 1 holds the
  record given.
\<close>

definition stored_fragment :: "byte \<Rightarrow> byte \<Rightarrow> rke_fragment_t" where
  "stored_fragment fid b = \<lparr>fragment_id = fid, total_fragments = 5, threshold = 3,
     fragment_size = 256, data = replicate 256 b, checksum = replicate 32 0\<rparr>"

definition store_world :: "rke_fragment_t \<Rightarrow> world" where
  "store_world f1 = (snd (cmd_rke_generate gen_request gen_world))
     \<lparr>frag_files := [fragment_path ''/tmp/rke_test'' demo_key_id 1 \<mapsto> Whole f1,
                     fragment_path ''/tmp/rke_test'' demo_key_id 2 \<mapsto> Whole (stored_fragment 2 0x22),
                     fragment_path ''/tmp/rke_test'' demo_key_id 3 \<mapsto> Whole (stored_fragment 3 0x33)]\<rparr>"

section \<open>Byte loops\<close>

lemma length_xor_fold:
  "length (fold (\<lambda>i d. d[i := d ! i XOR m i]) [0..<n] d0) = length (d0 :: byte list)"
  by (induction n) simp_all

lemma nth_xor_fold:
  "i < length d0 \<Longrightarrow>
   fold (\<lambda>i d. d[i := d ! i XOR m i]) [0..<n] d0 ! i = (if i < n then d0 ! i XOR m i else (d0 :: byte list) ! i)"
  by (induction n) (auto simp add: length_xor_fold nth_list_update less_Suc_eq)


section \<open>The stream transform\<close>

lemma length_crypt_ctr: "length (crypt_ctr key dat len nc) = length dat"
  unfolding crypt_ctr_def by (rule length_xor_fold)

lemma nth_crypt_ctr:
  "i < length dat \<Longrightarrow> crypt_ctr key dat len nc ! i =
     (if i < len then dat ! i XOR (key ! (i mod 16) XOR nc ! (i mod 16)) else dat ! i)"
  unfolding crypt_ctr_def by (rule nth_xor_fold)

lemma crypt_ctr_twice: "crypt_ctr key (crypt_ctr key dat len nc) len nc = dat"
  by (rule nth_equalityI) (simp_all add: length_crypt_ctr nth_crypt_ctr word_bw_assocs)

text \<open>
  C8. \<open>crypt_ctr\<close> replaces each byte \<open>i\<close> of the first \<open>len\<close> bytes of the buffer by
  \<open>buf[i] XOR key[i mod 16] XOR nc[i mod 16]\<close>, keeps the length of the buffer, and
  applying it twice with the same key and nc gives the buffer back.
\<close>

theorem crypt_ctr_involutive:
  "length (crypt_ctr key buf len nc) = length buf \<and>
   (\<forall>i < length buf. i < len \<longrightarrow>
      crypt_ctr key buf len nc ! i = buf ! i XOR (key ! (i mod 16) XOR nc ! (i mod 16))) \<and>
   crypt_ctr key (crypt_ctr key buf len nc) len nc = buf"
  by (simp add: length_crypt_ctr nth_crypt_ctr crypt_ctr_twice)

theorem crypt_ctr_involutive_witness:
  "(1 :: nat) < length [0xAA, 0xBB, 0xCC :: byte] \<and> (1 :: nat) < 3 \<and>
   crypt_ctr (map of_nat [1..<17]) [0xAA, 0xBB, 0xCC] 3 (replicate 16 0xF0) ! 1 = 0x49 \<and>
   crypt_ctr (map of_nat [1..<17])
     (crypt_ctr (map of_nat [1..<17]) [0xAA, 0xBB, 0xCC] 3 (replicate 16 0xF0)) 3
     (replicate 16 0xF0) = [0xAA, 0xBB, 0xCC]"
  using crypt_ctr_involutive [of "map of_nat [1..<17]" "[0xAA, 0xBB, 0xCC]" 3 "replicate 16 0xF0"]
  by (simp add: upt_conv_Cons)

section \<open>Split and reconstruct\<close>

lemma length_xor_bytes: "length (xor_bytes dst src n) = length dst"
  unfolding xor_bytes_def by (rule length_xor_fold)

lemma nth_xor_bytes:
  "i < length dst \<Longrightarrow> xor_bytes dst src n ! i = (if i < n then dst ! i XOR src ! i else dst ! i)"
  unfolding xor_bytes_def by (rule nth_xor_fold)

lemma xor_bytes_whole:
  "length dst = n \<Longrightarrow> n \<le> length src \<Longrightarrow> xor_bytes dst src n = map2 (XOR) dst (take n src)"
  by (rule nth_equalityI) (simp_all add: length_xor_bytes nth_xor_bytes)

lemma take_xor_bytes:
  "n \<le> length dst \<Longrightarrow> n \<le> length src \<Longrightarrow>
   take n (xor_bytes dst src n) = map2 (XOR) (take n dst) (take n src)"
  by (rule nth_equalityI) (simp_all add: length_xor_bytes nth_xor_bytes)

lemma drop_xor_bytes: "drop n (xor_bytes dst src n) = drop n dst"
  by (rule nth_equalityI) (simp_all add: length_xor_bytes nth_xor_bytes)

lemma xr_commute: "xr r (xr s K) = xr s (xr r K)"
  by (rule nth_equalityI) (simp_all add: word_bw_lcs ac_simps)

lemma xr_cancel: "length K \<le> length r \<Longrightarrow> xr r (xr r K) = K"
  by (rule nth_equalityI) (simp_all add: word_bw_assocs)

lemma xr_fold_commute: "xr r (fold xr rs K) = fold xr rs (xr r K)"
  by (induction rs arbitrary: K) (simp_all add: xr_commute)

lemma length_fold_xr:
  "\<forall>r \<in> set rs. length r = length K \<Longrightarrow> length (fold xr rs K) = length K"
  by (induction rs arbitrary: K) simp_all

lemma fold_xr_twice:
  "\<forall>r \<in> set rs. length r = length K \<Longrightarrow> fold xr rs (fold xr rs K) = K"
proof (induction rs arbitrary: K)
  case Nil
  then show ?case by simp
next
  case (Cons r rs)
  then have len: "length r = length K" and rest: "\<forall>r \<in> set rs. length r = length K"
    by simp_all
  have "fold xr (r # rs) (fold xr (r # rs) K) = fold xr rs (xr r (fold xr rs (xr r K)))"
    by simp
  also have "\<dots> = fold xr rs (xr r (xr r (fold xr rs K)))"
    by (simp add: xr_fold_commute)
  also have "\<dots> = fold xr rs (fold xr rs K)"
    using len rest by (simp add: xr_cancel length_fold_xr)
  also have "\<dots> = K" using rest by (rule Cons.IH)
  finally show ?case .
qed

lemma hash_input_checksum [simp]: "hash_input (f\<lparr>checksum := c\<rparr>) = hash_input f"
  by (simp add: hash_input_def)

lemma verify_calculated: "rke_verify_checksum (rke_calculate_checksum f) = RKE_SUCCESS"
  by (simp add: rke_verify_checksum_def rke_calculate_checksum_def)

lemma length_checksum_loop: "length (checksum_loop n st) = length st"
  unfolding checksum_loop_def by (induction n) simp_all

lemma nth_checksum_loop:
  "i < length st \<Longrightarrow>
   checksum_loop n st ! i = (if i < n then rke_calculate_checksum (st ! i) else st ! i)"
  unfolding checksum_loop_def
proof (induction n)
  case 0
  then show ?case by simp
next
  case (Suc n)
  have "length (fold (\<lambda>i st. st[i := rke_calculate_checksum (st ! i)]) [0..<n] st) = length st"
    using length_checksum_loop [of n st] by (simp add: checksum_loop_def)
  with Suc show ?case by (auto simp add: nth_list_update less_Suc_eq)
qed

lemma data_calculate [simp]: "data (rke_calculate_checksum f) = data f"
  by (simp add: rke_calculate_checksum_def)

lemma data_checksum_loop: "i < length st \<Longrightarrow> data (checksum_loop n st ! i) = data (st ! i)"
  by (simp add: nth_checksum_loop)


lemma secure_random_ok:
  assumes "secure_random_bytes buf n dev = (0, buf', dev')" "n \<le> length buf"
  shows "length buf' = length buf" "length (take n buf') = n"
proof -
  from assms obtain bs d where dev: "dev = Some bs # d"
    by (cases dev; cases "hd dev") auto
  with assms have a: "length (take n bs) = n" and b: "buf' = take n bs @ drop n buf"
    by (auto simp: Let_def split: if_splits)
  from a b assms(2) show "length buf' = length buf" by simp
  from a b assms(2) show "length (take n buf') = n" by simp
qed

lemma split_loop_inv:
  assumes "split_loop key ks md ids st dev = (RKE_SUCCESS, st', dev')"
    and "\<forall>fid \<in> set ids. 2 \<le> fid \<and> fid \<le> length st"
    and "distinct ids"
    and "unat ks \<le> 256"
    and "length (data (st ! 0)) = 256"
  shows "length st' = length st \<and> length (data (st' ! 0)) = 256 \<and>
     take (unat ks) (data (st' ! 0)) =
       fold xr (map (\<lambda>fid. take (unat ks) (data (st' ! (fid - 1)))) ids)
         (take (unat ks) (data (st ! 0))) \<and>
     (\<forall>fid \<in> set ids. length (data (st' ! (fid - 1))) = 256) \<and>
     (\<forall>j < length st. j \<noteq> 0 \<longrightarrow> Suc j \<notin> set ids \<longrightarrow> st' ! j = st ! j)"
  using assms
proof (induction ids arbitrary: st dev)
  case Nil
  then show ?case by simp
next
  case (Cons fid ids)
  define L where "L = unat ks"
  define fragment where "fragment = (st ! (fid - 1))
            \<lparr>fragment_id := of_nat fid,
             total_fragments := m_total_fragments md,
             threshold := m_threshold md,
             fragment_size := ks,
             data := replicate 256 0\<rparr>"
  from Cons.prems have fid: "2 \<le> fid" "fid \<le> length st" "fid \<notin> set ids"
    and ids: "\<forall>f \<in> set ids. 2 \<le> f \<and> f \<le> length st" "distinct ids"
    by simp_all
  obtain rv buf dev1 where srb: "secure_random_bytes (replicate 256 0) L dev = (rv, buf, dev1)"
    by (cases "secure_random_bytes (replicate 256 0) L dev") auto
  define st1 where "st1 = st[fid - 1 := fragment\<lparr>data := buf\<rparr>]"
  define st2 where "st2 = st1[0 := (st1 ! 0)\<lparr>data := xor_bytes (data (st1 ! 0)) buf L\<rparr>]"
  from Cons.prems(1) fid(1) srb
  have rv: "rv = 0" and rest: "split_loop key ks md ids st2 dev1 = (RKE_SUCCESS, st', dev')"
    by (auto simp: Let_def L_def fragment_def st1_def st2_def split: if_splits)
  from srb rv Cons.prems(4) have buf: "length buf = 256" "length (take L buf) = L"
    using secure_random_ok [of "replicate 256 0" L dev buf dev1] by (simp_all add: L_def)
  have len2: "length st2 = length st" by (simp add: st2_def st1_def)
  have st1_0: "st1 ! 0 = st ! 0" using fid by (simp add: st1_def)
  have pos: "0 < length st" using fid by (cases st) simp_all
  have st2_0: "data (st2 ! 0) = xor_bytes (data (st ! 0)) buf L"
    using pos by (simp add: st2_def st1_0) (simp add: st1_def)
  have st2_fid: "st2 ! (fid - 1) = fragment\<lparr>data := buf\<rparr>"
    using fid by (simp add: st2_def st1_def)
  have st2_other: "\<And>j. j < length st \<Longrightarrow> j \<noteq> 0 \<Longrightarrow> Suc j \<noteq> fid \<Longrightarrow> st2 ! j = st ! j"
    by (auto simp: st2_def st1_def)
  have IH: "length st' = length st2 \<and> length (data (st' ! 0)) = 256 \<and>
     take (unat ks) (data (st' ! 0)) =
       fold xr (map (\<lambda>fid. take (unat ks) (data (st' ! (fid - 1)))) ids)
         (take (unat ks) (data (st2 ! 0))) \<and>
     (\<forall>fid \<in> set ids. length (data (st' ! (fid - 1))) = 256) \<and>
     (\<forall>j < length st2. j \<noteq> 0 \<longrightarrow> Suc j \<notin> set ids \<longrightarrow> st' ! j = st2 ! j)"
    using rest ids Cons.prems(4,5)
    by (intro Cons.IH [of st2 dev1]) (simp_all add: len2 st2_0 length_xor_bytes)
  from IH fid have keep: "st' ! (fid - 1) = st2 ! (fid - 1)"
    by (simp add: len2)
  have gfid: "data (st' ! (fid - 1)) = buf" using keep st2_fid by simp
  have head: "take L (data (st2 ! 0)) = xr (take L buf) (take L (data (st ! 0)))"
    using Cons.prems(4,5) buf by (simp add: st2_0 take_xor_bytes L_def)
  have "take (unat ks) (data (st' ! 0)) =
       fold xr (map (\<lambda>fid. take (unat ks) (data (st' ! (fid - 1)))) (fid # ids))
         (take (unat ks) (data (st ! 0)))"
    using IH head gfid by (simp add: L_def)
  moreover have "\<forall>f \<in> set (fid # ids). length (data (st' ! (f - 1))) = 256"
    using IH buf gfid by simp
  moreover have "\<forall>j < length st. j \<noteq> 0 \<longrightarrow> Suc j \<notin> set (fid # ids) \<longrightarrow> st' ! j = st ! j"
    using IH st2_other by (auto simp: len2)
  ultimately show ?case using IH by (simp add: len2)
qed


lemma fold_xor_bytes:
  "length acc = L \<Longrightarrow> \<forall>i \<in> set idxs. L \<le> length (d i) \<Longrightarrow>
   fold (\<lambda>i key. xor_bytes key (d i) L) idxs acc = fold xr (map (\<lambda>i. take L (d i)) idxs) acc"
  by (induction idxs arbitrary: acc) (simp_all add: xor_bytes_whole)

lemma xr_zero: "length A = L \<Longrightarrow> xr A (replicate L 0) = A"
  by (rule nth_equalityI) simp_all

lemma take_as_map: "n \<le> length xs \<Longrightarrow> take n xs = map ((!) xs) [0..<n]"
  by (rule nth_equalityI) simp_all

lemma split_success:
  assumes "rke_split_key key key_size md g = (RKE_SUCCESS, g')"
  shows "key_size \<noteq> 0" "unat key_size \<le> 256"
    "m_threshold md \<le> m_total_fragments md" "2 \<le> unat (m_threshold md)"
    "\<exists>st dev. split_loop key key_size md [1..<Suc (unat (m_total_fragments md))]
               (replicate 256 zero_fragment) (dev_urandom g) = (RKE_SUCCESS, st, dev) \<and>
        fragment_storage g' = checksum_loop (unat (m_total_fragments md)) st \<and>
        fragment_count g' = uint (m_total_fragments md)"
  using assms
  by (auto simp: rke_split_key_def split: if_splits prod.splits)

lemma split_storage:
  assumes ok: "rke_split_key key key_size md g = (RKE_SUCCESS, g')"
    and len: "length key = unat key_size"
  defines "N \<equiv> unat (m_total_fragments md)" and "L \<equiv> unat key_size"
  defines "rs \<equiv> map (\<lambda>i. take L (data (fragment_storage g' ! i))) [1..<N]"
  shows "length (fragment_storage g') = 256"
    and "take L (data (fragment_storage g' ! 0)) = fold xr rs key"
    and "\<forall>r \<in> set rs. length r = L"
    and "\<forall>i < N. rke_verify_checksum (fragment_storage g' ! i) = RKE_SUCCESS"
    and "\<forall>i \<in> set [1..<N]. L \<le> length (data (fragment_storage g' ! i))"
    and "\<forall>i < N. checksum (fragment_storage g' ! i)
           = simple_sha256 (hash_input (fragment_storage g' ! i))"
proof -
  note s = split_success [OF ok]
  from s obtain st dev where
    loop: "split_loop key key_size md [1..<Suc N] (replicate 256 zero_fragment) (dev_urandom g)
             = (RKE_SUCCESS, st, dev)"
    and stor: "fragment_storage g' = checksum_loop N st"
    by (auto simp: N_def)
  have N: "2 \<le> N" "N < 256"
    using s(3,4) unsigned_less [of "m_total_fragments md", where ?'a = nat]
    by (simp_all add: N_def word_le_nat_alt)
  have L: "L \<le> 256" using s(2) by (simp add: L_def)
  define st0 where "st0 = (replicate 256 zero_fragment)
     [0 := zero_fragment\<lparr>fragment_id := 1, total_fragments := m_total_fragments md,
        threshold := m_threshold md, fragment_size := key_size,
        data := take L key @ drop L (replicate 256 0)\<rparr>]"
  have "[1..<Suc N] = 1 # [Suc 1..<Suc N]"
    using N by (intro upt_conv_Cons) simp
  then have upt: "[1..<Suc N] = 1 # [2..<Suc N]"
    by (simp only: Suc_1)
  have loop2: "split_loop key key_size md [2..<Suc N] st0 (dev_urandom g) = (RKE_SUCCESS, st, dev)"
    using loop unfolding upt by (simp add: st0_def L_def Let_def)
  have st0: "length st0 = 256" "length (data (st0 ! 0)) = 256" "take L (data (st0 ! 0)) = key"
    using L len by (simp_all add: st0_def L_def)
  have inv: "length st = length st0 \<and> length (data (st ! 0)) = 256 \<and>
     take (unat key_size) (data (st ! 0)) =
       fold xr (map (\<lambda>fid. take (unat key_size) (data (st ! (fid - 1)))) [2..<Suc N])
         (take (unat key_size) (data (st0 ! 0))) \<and>
     (\<forall>fid \<in> set [2..<Suc N]. length (data (st ! (fid - 1))) = 256) \<and>
     (\<forall>j < length st0. j \<noteq> 0 \<longrightarrow> Suc j \<notin> set [2..<Suc N] \<longrightarrow> st ! j = st0 ! j)"
    using loop2 N L st0 by (intro split_loop_inv) (simp_all add: L_def)
  have lst: "length st = 256" using inv st0 by simp
  show "length (fragment_storage g') = 256" by (simp add: stor length_checksum_loop lst)
  have dat: "\<And>i. i < 256 \<Longrightarrow> data (fragment_storage g' ! i) = data (st ! i)"
    by (simp add: stor data_checksum_loop lst)
  have shift: "[2..<Suc N] = map Suc [1..<N]"
    by (simp add: map_Suc_upt numeral_2_eq_2)
  have rs: "rs = map (\<lambda>fid. take L (data (st ! (fid - 1)))) [2..<Suc N]"
    using N unfolding rs_def shift by (simp add: dat)
  show "take L (data (fragment_storage g' ! 0)) = fold xr rs key"
    using inv st0 by (simp add: dat rs L_def)
  show "\<forall>r \<in> set rs. length r = L"
    using inv L unfolding rs by (auto simp: L_def)
  show "\<forall>i < N. rke_verify_checksum (fragment_storage g' ! i) = RKE_SUCCESS"
    using N by (simp add: stor nth_checksum_loop lst verify_calculated)
  show "\<forall>i < N. checksum (fragment_storage g' ! i)
           = simple_sha256 (hash_input (fragment_storage g' ! i))"
    using N by (simp add: stor nth_checksum_loop lst) (simp add: rke_calculate_checksum_def)
  show "\<forall>i \<in> set [1..<N]. L \<le> length (data (fragment_storage g' ! i))"
  proof
    fix i assume "i \<in> set [1..<N]"
    then have i: "1 \<le> i" "i < N" by simp_all
    then have "Suc i \<in> set [2..<Suc N]" by auto
    with inv have "length (data (st ! (Suc i - 1))) = 256" by blast
    with i N L show "L \<le> length (data (fragment_storage g' ! i))" by (simp add: dat)
  qed
qed

lemma roundtrip_core:
  assumes ok: "rke_split_key key key_size md g = (RKE_SUCCESS, g')"
    and len: "length key = unat key_size"
  shows "fragments_xor (unat key_size)
           (take (unat (m_total_fragments md)) (fragment_storage g')) = key
       \<and> rke_reconstruct_key key_size md g' = Inr key"
proof -
  define N where "N = unat (m_total_fragments md)"
  define L where "L = unat key_size"
  define S where "S = fragment_storage g'"
  define rs where "rs = map (\<lambda>i. take L (data (S ! i))) [1..<N]"
  note s = split_success [OF ok]
  note t = split_storage [OF ok len, folded N_def L_def S_def, folded rs_def]
  have N: "2 \<le> N" "N < 256"
    using s(3,4) unsigned_less [of "m_total_fragments md", where ?'a = nat]
    by (simp_all add: N_def word_le_nat_alt)
  have cnt: "fragment_count g' = int N" using s(5) by (auto simp: N_def)
  have lenK: "length key = L" by (simp add: len L_def)
  have rsK: "\<forall>r \<in> set rs. length r = length key" using t(3) lenK by simp
  have A: "take L (data (S ! 0)) = fold xr rs key" by (rule t(2))
  have lenA: "length (take L (data (S ! 0))) = L"
    unfolding A using rsK lenK by (simp add: length_fold_xr)
  have undo: "fold xr rs (take L (data (S ! 0))) = key"
    unfolding A using rsK by (rule fold_xr_twice)
  have "fragments_xor L (take N S) = fold xr (map (\<lambda>i. take L (data (S ! i))) [0..<N]) (replicate L 0)"
    using N t(1) by (simp add: fragments_xor_def take_as_map fold_map comp_def)
  also have "[0..<N] = 0 # [1..<N]" using N by (simp add: upt_conv_Cons)
  also have "fold xr (map (\<lambda>i. take L (data (S ! i))) (0 # [1..<N])) (replicate L 0)
      = fold xr rs (take L (data (S ! 0)))"
    using lenA by (simp add: rs_def xr_zero)
  finally have part1: "fragments_xor L (take N S) = key" using undo by simp
  have verify: "verify_loop (unat (m_threshold md)) S"
    using t(4) s(3) by (auto simp: verify_loop_def N_def word_le_nat_alt)
  have thr: "\<not> fragment_count g' < uint (m_threshold md)"
    using s(3) cnt by (simp add: N_def word_le_def)
  have "rke_reconstruct_key key_size md g'
      = Inr (fold (\<lambda>i key. xor_bytes key (data (S ! i)) L) [1..<N] (take L (data (S ! 0))))"
    using s(1) verify thr by (simp add: rke_reconstruct_key_def S_def L_def cnt)
  also have "fold (\<lambda>i key. xor_bytes key (data (S ! i)) L) [1..<N] (take L (data (S ! 0)))
      = fold xr rs (take L (data (S ! 0)))"
    unfolding rs_def using lenA t(5) by (rule fold_xor_bytes)
  finally have part2: "rke_reconstruct_key key_size md g' = Inr key" using undo by simp
  from part1 part2 show ?thesis by (simp add: N_def L_def S_def)
qed


text \<open>
  The split succeeds whenever its parameters are in range and the random device delivers
  \<open>key_size\<close> bytes for each of the fragments \<open>2 .. total_fragments\<close>.
\<close>

lemma split_loop_succeeds:
  assumes "\<forall>fid \<in> set ids. fid \<noteq> 1" and "length rs = length ids"
    and "\<forall>r \<in> set rs. unat ks \<le> length r"
  shows "fst (split_loop key ks md ids st (map Some rs @ rest)) = RKE_SUCCESS"
  using assms
proof (induction ids arbitrary: st rs)
  case Nil
  then show ?case by simp
next
  case (Cons fid ids)
  then obtain r rs' where rs: "rs = r # rs'" by (cases rs) auto
  with Cons.prems have r: "length (take (unat ks) r) = unat ks" and fid: "fid \<noteq> 1"
    and rest: "\<forall>f \<in> set ids. f \<noteq> 1" "length rs' = length ids" "\<forall>r \<in> set rs'. unat ks \<le> length r"
    by simp_all
  show ?case
    using fid r Cons.IH [OF rest] by (simp add: rs Let_def)
qed

lemma split_succeeds:
  assumes "key_size \<noteq> 0" and "unat key_size \<le> 256"
    and "m_threshold md \<le> m_total_fragments md" and "2 \<le> unat (m_threshold md)"
    and "dev_urandom g = map Some rs @ rest"
    and "length rs = unat (m_total_fragments md) - 1"
    and "\<forall>r \<in> set rs. unat key_size \<le> length r"
  shows "fst (rke_split_key key key_size md g) = RKE_SUCCESS"
proof -
  define N where "N = unat (m_total_fragments md)"
  have N: "2 \<le> N" using assms(3,4) by (simp add: N_def word_le_nat_alt)
  have "[1..<Suc N] = 1 # [Suc 1..<Suc N]" using N by (intro upt_conv_Cons) simp
  then have upt: "[1..<Suc N] = 1 # [2..<Suc N]" by (simp only: Suc_1)
  have ids: "\<forall>fid \<in> set [2..<Suc N]. fid \<noteq> 1" "length rs = length [2..<Suc N]"
    using assms(6) N by (simp_all add: N_def)
  have "fst (split_loop key key_size md [2..<Suc N] st (map Some rs @ rest)) = RKE_SUCCESS" for st
    using ids assms(7) by (rule split_loop_succeeds)
  then have "fst (split_loop key key_size md [1..<Suc N] (replicate 256 zero_fragment)
                    (map Some rs @ rest)) = RKE_SUCCESS"
    unfolding upt by (simp add: Let_def del: upt_Suc)
  then show ?thesis
    using assms(1-5)
    by (auto simp add: rke_split_key_def N_def [symmetric] not_less [symmetric]
        split: prod.splits simp del: upt_Suc)
qed

text \<open>
  C1. Whenever \<open>rke_split_key\<close> succeeds on a key of \<open>key_size\<close> bytes (which it does
  only for \<open>1 \<le> key_size \<le> 256\<close> and \<open>2 \<le> threshold \<le> total_fragments \<le> 255\<close>, and
  does for all of these when the random device delivers, by \<open>split_succeeds\<close>), the XOR
  of the first \<open>key_size\<close> data bytes of the \<open>total_fragments\<close> fragments it leaves is
  the key, and \<open>rke_reconstruct_key\<close> on those globals succeeds and returns the key.
\<close>

theorem split_reconstruct_roundtrip:
  assumes "rke_split_key key key_size md g = (RKE_SUCCESS, g')"
    and "length key = unat key_size"
  shows "fragments_xor (unat key_size)
           (take (unat (m_total_fragments md)) (fragment_storage g')) = key
       \<and> rke_reconstruct_key key_size md g' = Inr key"
  using assms by (rule roundtrip_core)

lemma demo_split_status: "fst (rke_split_key demo_key 2 demo_metadata demo_globals) = RKE_SUCCESS"
  by (simp add: rke_split_key_def demo_key_def demo_metadata_def demo_globals_def
      upt_conv_Cons Let_def split: prod.splits)

theorem split_reconstruct_roundtrip_witness:
  "fst (rke_split_key demo_key 2 demo_metadata demo_globals) = RKE_SUCCESS \<and>
   length demo_key = unat (2 :: 16 word) \<and>
   fragments_xor 2 (take 3 (fragment_storage (snd (rke_split_key demo_key 2 demo_metadata demo_globals))))
     = demo_key \<and>
   rke_reconstruct_key 2 demo_metadata (snd (rke_split_key demo_key 2 demo_metadata demo_globals))
     = Inr demo_key"
proof -
  have ok: "rke_split_key demo_key 2 demo_metadata demo_globals
      = (RKE_SUCCESS, snd (rke_split_key demo_key 2 demo_metadata demo_globals))"
    using demo_split_status by (simp add: prod_eq_iff)
  have len: "length demo_key = unat (2 :: 16 word)" by (simp add: demo_key_def)
  show ?thesis
    using split_reconstruct_roundtrip [OF ok len] demo_split_status len
    by (simp add: demo_metadata_def)
qed

section \<open>Loading metadata\<close>

text \<open>
  C10. When the metadata file found for the lookup key holds a whole record whose 16-byte
  \<open>key_id\<close> differs from the lookup key in some position, \<open>rke_load_metadata\<close> returns
  \<open>RKE_ERROR_FRAGMENT_CORRUPT\<close>; and a record it returns agrees with the lookup key on
  all 16 bytes.
\<close>

theorem load_metadata_rejects_mismatch:
  "(meta_files w (metadata_path (cwd w) kid) = Some (Whole m) \<and>
    length (key_id m) = 16 \<and> length kid = 16 \<and> (\<exists>i < 16. key_id m ! i \<noteq> kid ! i)
      \<longrightarrow> rke_load_metadata kid w = Inl RKE_ERROR_FRAGMENT_CORRUPT) \<and>
   (rke_load_metadata kid w = Inr m' \<longrightarrow> take 16 (key_id m') = take 16 kid)"
  by (auto simp: rke_load_metadata_def split: option.splits stored.splits if_splits)

theorem load_metadata_rejects_mismatch_witness:
  "rke_load_metadata demo_key_id
     (demo_world\<lparr>meta_files := [metadata_path ''/tmp/rke_test'' demo_key_id \<mapsto> Whole other_metadata]\<rparr>)
   = Inl RKE_ERROR_FRAGMENT_CORRUPT"
proof -
  let ?w = "demo_world\<lparr>meta_files := [metadata_path ''/tmp/rke_test'' demo_key_id \<mapsto> Whole other_metadata]\<rparr>"
  have a: "meta_files ?w (metadata_path (cwd ?w) demo_key_id) = Some (Whole other_metadata)"
    by (simp add: demo_world_def)
  have b: "length (key_id other_metadata) = 16" "length demo_key_id = 16"
    by (simp_all add: other_metadata_def demo_key_id_def)
  have c: "\<exists>i < 16. key_id other_metadata ! i \<noteq> demo_key_id ! i"
    by (rule exI [of _ 15]) (simp add: other_metadata_def demo_key_id_def)
  from load_metadata_rejects_mismatch [of ?w demo_key_id other_metadata] a b c
  show ?thesis by blast
qed

section \<open>Copying bytes\<close>

lemma length_memcpy: "length (memcpy dst doff src soff n) = length dst"
  unfolding memcpy_def by (induction n) simp_all

lemma nth_memcpy:
  "j < length dst \<Longrightarrow> memcpy dst doff src soff n ! j =
     (if doff \<le> j \<and> j < doff + n then src ! (soff + (j - doff)) else dst ! j)"
proof (induction n)
  case 0
  then show ?case by (auto simp: memcpy_def)
next
  case (Suc n)
  have step: "memcpy dst doff src soff (Suc n)
      = (memcpy dst doff src soff n)[doff + n := src ! (soff + n)]"
    by (simp add: memcpy_def)
  show ?case
  proof (cases "j = doff + n")
    case True
    with Suc.prems show ?thesis by (simp add: step length_memcpy)
  next
    case False
    then have "(j < doff + Suc n) = (j < doff + n)" by arith
    with False Suc show ?thesis by (simp add: step)
  qed
qed

lemma memcpy_whole:
  "length dst = n \<Longrightarrow> soff + n \<le> length src \<Longrightarrow> memcpy dst 0 src soff n = take n (drop soff src)"
  by (rule nth_equalityI) (simp_all add: length_memcpy nth_memcpy)

lemma coin_id_unsigned:
  "(word_of_int (push_bit 8 (uint (a :: byte)) OR uint (b :: byte)) :: 16 word)
     = push_bit 8 (ucast a) OR ucast b"
  by (rule bit_word_eqI) (auto simp: bit_simps)

section \<open>Loading the encryption coin\<close>

text \<open>
  Where plain \<^verbatim>\<open>char\<close> is unsigned, \<open>load_my_enc_coin\<close> succeeds exactly when the file
  opens, the read delivers 440 bytes and \<open>(byte2 << 8) | byte3\<close> is the configured coin
  id, and then hands out the file bytes 40..439.
\<close>

lemma load_my_enc_coin_unsigned_char:
  assumes "\<not> char_is_signed w" "length buf = 400"
  shows "load_my_enc_coin dn s buf w =
     (case coin_files w (coin_path (cwd w) dn s) of
        Some (Content bs) \<Rightarrow>
          if 440 \<le> length bs \<and>
             (push_bit 8 (ucast (bs ! 2)) OR ucast (bs ! 3) :: 16 word) = coin_id w
          then (0, take 400 (drop 40 bs)) else (- 1, buf)
      | _ \<Rightarrow> (- 1, buf))"
proof (cases "coin_files w (coin_path (cwd w) dn s)")
  case None
  then show ?thesis by (simp add: load_my_enc_coin_def)
next
  case (Some f)
  show ?thesis
  proof (cases f)
    case ReadError
    with Some show ?thesis by (simp add: load_my_enc_coin_def)
  next
    case (Content bs)
    show ?thesis
    proof (cases "440 \<le> length bs")
      case True
      then have "memcpy buf 0 (take 440 bs) 40 400 = take 400 (drop 40 bs)"
        using assms(2) by (simp add: memcpy_whole take_drop)
      with True Some Content assms(1) show ?thesis
        by (simp add: load_my_enc_coin_def Let_def char_value_def coin_id_unsigned)
    next
      case False
      with Some Content show ?thesis
        by (simp add: load_my_enc_coin_def Let_def)
    qed
  qed
qed

text \<open>
  C9. Where plain \<^verbatim>\<open>char\<close> is signed, a byte 3 of \<open>0x80\<close> or more is sign-extended
  by the promotion and sets the high byte of the computed id: the coin file below opens,
  delivers 440 bytes and carries the configured id \<open>0x0080\<close> in its bytes 2 and 3 read
  as unsigned, and \<open>load_my_enc_coin\<close> returns \<open>-1\<close>.
\<close>

theorem load_my_enc_coin_sign_extension:
  "coin_files coin_world (coin_path (cwd coin_world) 1 100) = Some (Content signed_coin_file) \<and>
   length signed_coin_file = 440 \<and>
   (push_bit 8 (ucast (signed_coin_file ! 2)) OR ucast (signed_coin_file ! 3) :: 16 word)
     = coin_id coin_world \<and>
   char_is_signed coin_world \<and>
   load_my_enc_coin 1 100 (replicate 400 0) coin_world = (- 1, replicate 400 0)"
  by (simp add: coin_world_def demo_world_def signed_coin_file_def load_my_enc_coin_def
      char_value_def Let_def)

lemma load_my_enc_coin_unsigned_reading:
  "load_my_enc_coin 1 100 (replicate 400 0) (coin_world\<lparr>char_is_signed := False\<rparr>)
     = (0, replicate 400 0)"
  by (simp add: load_my_enc_coin_unsigned_char)
     (simp add: coin_world_def demo_world_def signed_coin_file_def)

section \<open>Decrypting the key blocks of the peers\<close>

lemma crypt_ctr_eq_map:
  "length dat = len \<Longrightarrow>
   crypt_ctr key dat len nc
     = map (\<lambda>i. dat ! i XOR (key ! (i mod 16) XOR nc ! (i mod 16))) [0..<len]"
  by (rule nth_equalityI) (simp_all add: length_crypt_ctr nth_crypt_ctr)

lemma upt_16: "[0..<16] = [0, 1, 2, 3, 4, 5, 6, 7, 8, 9, 10, 11, 12, 13, 14, 15]"
  by (simp add: upt_conv_Cons)

lemma dec_world_coin:
  "load_my_enc_coin 1 100 (replicate (16 * 25) 0) dec_world = (0, peer_table)"
proof -
  have "memcpy (replicate 400 0) 0 ([0x00, 0x00, 0x00, 0x01] @ replicate 36 0 @ peer_table) 40 400
          = peer_table"
    by (subst memcpy_whole) (simp_all add: peer_table_def)
  then show ?thesis
    by (simp add: load_my_enc_coin_def dec_world_def demo_world_def Let_def char_value_def
        peer_table_def)
qed

lemma peer_table_nth: "n + i < 400 \<Longrightarrow> drop n peer_table ! i = of_nat (n + i)"
  by (simp add: peer_table_def)

lemma body_peer1_fields:
  "body_peer1 ! 0 = 1" "get_sn (drop 1 body_peer1) = 100"
  "body_peer1 ! 23 = 0" "body_peer1 ! 24 = 1"
  "body_peer1 ! 26 = 1" "get_sn (drop 27 body_peer1) = 100"
  "crypt_ctr (take 16 (drop 16 peer_table)) key_plain 16 (replicate 16 0)
     = take 16 (drop 31 body_peer1)"
  "crypt_ctr (drop 1 peer_table) (take 16 (drop 31 body_peer1)) 16 (replicate 16 0) ! 15
     = 0xf0"
  by (simp_all add: body_peer1_def get_sn_def crypt_ctr_eq_map upt_16 peer_table_nth key_plain_def)

lemma body_shifted_fields:
  "body_shifted ! 0 = 1" "get_sn (drop 1 body_shifted) = 100"
  "body_shifted ! 23 = 0" "body_shifted ! 24 = 1"
  "body_shifted ! 26 = 1" "get_sn (drop 27 body_shifted) = 100"
  "crypt_ctr (drop 1 peer_table) (take 16 (drop 31 body_shifted)) 16 (replicate 16 0)
     = key_plain"
  by (simp_all add: body_shifted_def get_sn_def crypt_ctr_eq_map upt_16 peer_table_nth key_plain_def)

lemma decrypt_one_block:
  assumes "body_size ci = 49"
    and "load_my_enc_coin (body ci ! 0) (get_sn (drop 1 (body ci))) (replicate 400 0) w = (0, aens)"
    and "malloc_ok w"
  shows "output_buf (fst (cmd_decrypt_raida_key ci w))
     = Some (Bytes (fst (snd (decrypt_block aens (mfs_now w) (nonce ci) 0 (body ci, [0], w)))))"
  using assms
  by (simp add: cmd_decrypt_raida_key_def get_body_payload_def c_rem_def c_div_def Let_def
      split: prod.splits)

text \<open>
  C3. For the peer index \<open>da = 1\<close> the handler decrypts with the table bytes 1..16, not
  with the secret of peer 1 (table bytes 16..31): a block that carries \<open>key_plain\<close> under
  the secret of peer 1 is rejected, and the same plain block under the table bytes 1..16
  is accepted.
\<close>

theorem decrypt_uses_shifted_key:
  "take 16 (drop 31 body_peer1)
     = crypt_ctr (take 16 (drop (16 * 1) peer_table)) key_plain 16 (replicate 16 0) \<and>
   crypt_ctr (drop 1 peer_table) (take 16 (drop 31 body_shifted)) 16 (replicate 16 0) = key_plain \<and>
   output_buf (fst (cmd_decrypt_raida_key (dec_request body_peer1) dec_world)) = Some (Bytes [0x00]) \<and>
   output_buf (fst (cmd_decrypt_raida_key (dec_request body_shifted) dec_world)) = Some (Bytes [0x01])"
proof -
  have pg: "page_of dec_world 1 100 = Some 0" and env: "malloc_ok dec_world"
    by (simp_all add: dec_world_def demo_world_def)
  have a: "fst (snd (decrypt_block peer_table (mfs_now dec_world) (replicate 16 0) 0
                    (body_peer1, [0], dec_world))) = [0x00]"
    using body_peer1_fields pg by (simp add: decrypt_block_def Let_def)
  have b: "fst (snd (decrypt_block peer_table (mfs_now dec_world) (replicate 16 0) 0
                    (body_shifted, [0], dec_world))) = [0x01]"
    using body_shifted_fields pg by (simp add: decrypt_block_def Let_def key_plain_def get_sn_def)
  have "output_buf (fst (cmd_decrypt_raida_key (dec_request body_peer1) dec_world)) = Some (Bytes [0x00])"
    using body_peer1_fields(1,2) dec_world_coin env a
    by (subst decrypt_one_block [where aens = peer_table]) (simp_all add: dec_request_def)
  moreover
  have "output_buf (fst (cmd_decrypt_raida_key (dec_request body_shifted) dec_world)) = Some (Bytes [0x01])"
    using body_shifted_fields(1,2) dec_world_coin env b
    by (subst decrypt_one_block [where aens = peer_table]) (simp_all add: dec_request_def)
  ultimately show ?thesis
    using body_peer1_fields(7) body_shifted_fields(7) by simp
qed

theorem decrypt_uses_shifted_key_witness:
  "output_buf (fst (cmd_decrypt_raida_key (dec_request body_peer1) dec_world))
     \<noteq> output_buf (fst (cmd_decrypt_raida_key (dec_request body_shifted) dec_world))"
  using decrypt_uses_shifted_key by simp

section \<open>Encrypting a key\<close>

lemma length_encrypt_key_plain: "length (encrypt_key_plain payload dn r0) = 16"
  by (simp add: encrypt_key_plain_def Let_def length_memcpy)

lemma nth_encrypt_key_plain:
  "i < 16 \<Longrightarrow> encrypt_key_plain payload dn r0 ! i =
     (if i < 8 then payload ! (5 + i)
      else if i = 8 then dn
      else if i < 13 then payload ! (1 + (i - 9))
      else if i = 13 then word_of_int (drop_bit 8 r0 AND 0xff)
      else if i = 14 then word_of_int (r0 AND 0xff)
      else 0xff)"
  by (auto simp: encrypt_key_plain_def Let_def length_memcpy nth_memcpy nth_list_update)

lemma encrypt_key_plain_layout:
  assumes "13 \<le> length payload"
  shows "take 8 (encrypt_key_plain payload dn r0) = take 8 (drop 5 payload)"
    and "encrypt_key_plain payload dn r0 ! 8 = dn"
    and "take 4 (drop 9 (encrypt_key_plain payload dn r0)) = take 4 (drop 1 payload)"
    and "encrypt_key_plain payload dn r0 ! 15 = 0xff"
proof -
  show "take 8 (encrypt_key_plain payload dn r0) = take 8 (drop 5 payload)"
    using assms
    by (intro nth_equalityI) (simp_all add: length_encrypt_key_plain nth_encrypt_key_plain)
  show "take 4 (drop 9 (encrypt_key_plain payload dn r0)) = take 4 (drop 1 payload)"
    using assms
    by (intro nth_equalityI) (simp_all add: length_encrypt_key_plain nth_encrypt_key_plain)
qed (simp_all add: nth_encrypt_key_plain)

text \<open>
  What the handler computes from a request of \<open>body_size\<close> 31: the page is looked up with
  byte 0 of what \<open>get_body_payload\<close> returns as denomination and its bytes 1..4 as serial
  number, and the block under the stream transform is laid out from the bytes 0..12.
\<close>

lemma encrypt_key_reads:
  assumes "body_size ci = 31" and "length (body ci) = 31"
  shows "(page_of w (body ci ! 0) (get_sn (drop 1 (body ci))) = None \<longrightarrow>
            command_status (cmd_encrypt_key ci w) = ERROR_INVALID_SN_OR_DENOMINATION) \<and>
         (\<forall>page. page_of w (body ci ! 0) (get_sn (drop 1 (body ci))) = Some page \<and> malloc_ok w \<longrightarrow>
            command_status (cmd_encrypt_key ci w) = NO_ERROR \<and>
            output_buf (cmd_encrypt_key ci w) =
              Some (Bytes (crypt_ctr
                (take 16 (drop (unat (get_sn (drop 1 (body ci))) mod records_per_page w * 17)
                   (page_data w page)))
                (encrypt_key_plain (body ci) (body ci ! 0) (rand_value w)) 16 (nonce ci)))) \<and>
         get_sn (drop 1 (body ci)) =
           ucast (body ci ! 1) OR push_bit 8 (ucast (body ci ! 2))
             OR push_bit 16 (ucast (body ci ! 3)) OR push_bit 24 (ucast (body ci ! 4)) \<and>
         length (encrypt_key_plain (body ci) (body ci ! 0) (rand_value w)) = 16 \<and>
         take 8 (encrypt_key_plain (body ci) (body ci ! 0) (rand_value w)) = take 8 (drop 5 (body ci)) \<and>
         encrypt_key_plain (body ci) (body ci ! 0) (rand_value w) ! 8 = body ci ! 0 \<and>
         take 4 (drop 9 (encrypt_key_plain (body ci) (body ci ! 0) (rand_value w)))
           = take 4 (drop 1 (body ci)) \<and>
         encrypt_key_plain (body ci) (body ci ! 0) (rand_value w) ! 15 = 0xff"
proof -
  have sn: "get_sn (drop 1 (body ci)) =
           ucast (body ci ! 1) OR push_bit 8 (ucast (body ci ! 2))
             OR push_bit 16 (ucast (body ci ! 3)) OR push_bit 24 (ucast (body ci ! 4))"
  proof -
    have "drop 1 (body ci) ! 0 = body ci ! 1" "drop 1 (body ci) ! 1 = body ci ! 2"
      "drop 1 (body ci) ! 2 = body ci ! 3" "drop 1 (body ci) ! 3 = body ci ! 4"
      using assms(2) by (simp_all add: eval_nat_numeral)
    then show ?thesis by (simp only: get_sn_def)
  qed
  have "13 \<le> length (body ci)" using assms(2) by simp
  note lay = encrypt_key_plain_layout [OF this, of "body ci ! 0" "rand_value w"]
  have cmd: "page_of w (body ci ! 0) (get_sn (drop 1 (body ci))) = None \<longrightarrow>
            command_status (cmd_encrypt_key ci w) = ERROR_INVALID_SN_OR_DENOMINATION"
    "\<forall>page. page_of w (body ci ! 0) (get_sn (drop 1 (body ci))) = Some page \<and> malloc_ok w \<longrightarrow>
            command_status (cmd_encrypt_key ci w) = NO_ERROR \<and>
            output_buf (cmd_encrypt_key ci w) =
              Some (Bytes (crypt_ctr
                (take 16 (drop (unat (get_sn (drop 1 (body ci))) mod records_per_page w * 17)
                   (page_data w page)))
                (encrypt_key_plain (body ci) (body ci ! 0) (rand_value w)) 16 (nonce ci)))"
    using assms(1) by (simp_all add: cmd_encrypt_key_def get_body_payload_def Let_def)
  from cmd sn lay show ?thesis
    by (simp only: length_encrypt_key_plain simp_thms)
qed

text \<open>
  Nothing from byte 13 on is read: two requests of \<open>body_size\<close> 31 that agree on their
  first thirteen bytes and on the nonce get the same status and the same output, whatever
  their bytes 16..20 are.
\<close>

lemma encrypt_key_plain_cong:
  assumes "take 13 p = take 13 q" and "13 \<le> length p" and "13 \<le> length q"
  shows "encrypt_key_plain p (p ! 0) r0 = encrypt_key_plain q (q ! 0) r0"
proof -
  have nth: "p ! j = q ! j" if "j < 13" for j
  proof -
    have "take 13 p ! j = take 13 q ! j" using assms(1) by simp
    then show ?thesis using that by simp
  qed
  show ?thesis
  proof (rule nth_equalityI)
    show "length (encrypt_key_plain p (p ! 0) r0) = length (encrypt_key_plain q (q ! 0) r0)"
      by (simp add: length_encrypt_key_plain)
  next
    fix i assume "i < length (encrypt_key_plain p (p ! 0) r0)"
    then have i: "i < 16" by (simp add: length_encrypt_key_plain)
    show "encrypt_key_plain p (p ! 0) r0 ! i = encrypt_key_plain q (q ! 0) r0 ! i"
      using i by (simp add: nth_encrypt_key_plain nth)
  qed
qed

lemma encrypt_key_ignores_tail:
  assumes "body_size ci = 31" and "length (body ci) = 31" and "length b = 31"
    and "take 13 b = take 13 (body ci)"
  shows "command_status (cmd_encrypt_key (ci\<lparr>body := b\<rparr>) w) = command_status (cmd_encrypt_key ci w)"
    and "output_buf (cmd_encrypt_key (ci\<lparr>body := b\<rparr>) w) = output_buf (cmd_encrypt_key ci w)"
proof -
  have nth: "b ! j = body ci ! j" if "j < 13" for j
  proof -
    have "take 13 b ! j = take 13 (body ci) ! j" using assms(4) by simp
    then show ?thesis using that by simp
  qed
  have d0: "b ! 0 = body ci ! 0" using nth [of 0] by simp
  have "drop 1 b ! 0 = b ! 1" "drop 1 b ! 1 = b ! 2" "drop 1 b ! 2 = b ! 3" "drop 1 b ! 3 = b ! 4"
    "drop 1 (body ci) ! 0 = body ci ! 1" "drop 1 (body ci) ! 1 = body ci ! 2"
    "drop 1 (body ci) ! 2 = body ci ! 3" "drop 1 (body ci) ! 3 = body ci ! 4"
    using assms(2,3) by (simp_all add: eval_nat_numeral)
  moreover have "b ! 1 = body ci ! 1" "b ! 2 = body ci ! 2" "b ! 3 = body ci ! 3"
    "b ! 4 = body ci ! 4"
    using nth [of 1] nth [of 2] nth [of 3] nth [of 4] by simp_all
  ultimately have sn: "get_sn (drop 1 b) = get_sn (drop 1 (body ci))"
    by (simp only: get_sn_def)
  have pl: "encrypt_key_plain b (body ci ! 0) (rand_value w)
      = encrypt_key_plain (body ci) (body ci ! 0) (rand_value w)"
    using encrypt_key_plain_cong [OF assms(4), of "rand_value w"] assms(2,3) d0 by simp
  show "command_status (cmd_encrypt_key (ci\<lparr>body := b\<rparr>) w) = command_status (cmd_encrypt_key ci w)"
    using assms(1) d0 sn pl
    by (simp add: cmd_encrypt_key_def get_body_payload_def Let_def split: option.splits)
  show "output_buf (cmd_encrypt_key (ci\<lparr>body := b\<rparr>) w) = output_buf (cmd_encrypt_key ci w)"
    using assms(1) d0 sn pl
    by (simp add: cmd_encrypt_key_def get_body_payload_def Let_def split: option.splits)
qed

lemma enc_request_plain:
  "encrypt_key_plain (body enc_request) 0x01 0x1234 =
     [0xa1, 0xa2, 0xa3, 0xa4, 0xa5, 0xa6, 0xa7, 0xa8, 0x01, 0x64, 0x00, 0x00, 0x00,
      0x12, 0x34, 0xff]"
  by (rule nth_equalityI)
     (simp_all add: length_encrypt_key_plain nth_encrypt_key_plain enc_request_def
        nth_Cons' less_Suc_eq_0_disj)

text \<open>
  C4. The denomination and the serial number are not read from the bytes 16 and 17..20
  that follow the challenge, but from the bytes 0 and 1..4 of the challenge itself. The
  request below carries \<open>0x02\<close> in byte 16 and \<open>0x09090909\<close> in bytes 17..20, and
  \<open>0x01\<close> and 100 in bytes 0 and 1..4. Where only the coin \<open>01.100\<close> has a page, the
  command succeeds, with the denomination byte 8 of the block \<open>0x01\<close> and its serial
  number bytes 9..12 those of 100; where only the coin \<open>02.0x09090909\<close> named after the
  challenge has a page, the command fails with \<open>ERROR_INVALID_SN_OR_DENOMINATION\<close>.
\<close>

theorem encrypt_key_reads_challenge_bytes:
  "body_size enc_request = 31 \<and> length (body enc_request) = 31 \<and>
   body enc_request ! 16 = 0x02 \<and> get_sn (drop 17 (body enc_request)) = 0x09090909 \<and>
   body enc_request ! 0 = 0x01 \<and> get_sn (drop 1 (body enc_request)) = 100 \<and>
   page_of enc_world 0x02 0x09090909 = None \<and>
   command_status (cmd_encrypt_key enc_request enc_world) = NO_ERROR \<and>
   output_buf (cmd_encrypt_key enc_request enc_world) =
     Some (Bytes (crypt_ctr (replicate 16 0x5A)
       [0xa1, 0xa2, 0xa3, 0xa4, 0xa5, 0xa6, 0xa7, 0xa8, 0x01, 0x64, 0x00, 0x00, 0x00,
        0x12, 0x34, 0xff] 16 (replicate 16 0))) \<and>
   page_of named_coin_world 0x02 0x09090909 = Some 0 \<and> malloc_ok named_coin_world \<and>
   command_status (cmd_encrypt_key enc_request named_coin_world)
     = ERROR_INVALID_SN_OR_DENOMINATION"
proof -
  have req: "body_size enc_request = 31" "length (body enc_request) = 31"
    "body enc_request ! 16 = 0x02" "get_sn (drop 17 (body enc_request)) = 0x09090909"
    "body enc_request ! 0 = 0x01" "get_sn (drop 1 (body enc_request)) = 100"
    by (simp_all add: enc_request_def get_sn_def)
  have w1: "page_of enc_world 0x02 0x09090909 = None"
    "command_status (cmd_encrypt_key enc_request enc_world) = NO_ERROR"
    "output_buf (cmd_encrypt_key enc_request enc_world) =
     Some (Bytes (crypt_ctr (replicate 16 0x5A)
       (encrypt_key_plain (body enc_request) 0x01 0x1234) 16 (replicate 16 0)))"
    by (simp_all add: cmd_encrypt_key_def get_body_payload_def Let_def get_sn_def
        enc_request_def enc_world_def demo_world_def)
  have w2: "page_of named_coin_world 0x02 0x09090909 = Some 0" "malloc_ok named_coin_world"
    "command_status (cmd_encrypt_key enc_request named_coin_world)
       = ERROR_INVALID_SN_OR_DENOMINATION"
    by (simp_all add: cmd_encrypt_key_def get_body_payload_def Let_def get_sn_def
        enc_request_def named_coin_world_def demo_world_def)
  from req w1 w2 show ?thesis by (simp only: enc_request_plain simp_thms)
qed

section \<open>The status of \<open>cmd_decrypt_raida_key\<close>\<close>

lemma decrypt_block_out:
  assumes "decrypt_block aens mfs nc i (p, out, w) = (p', out', w')"
  shows "length out' = length out \<and> set out' \<subseteq> set out \<union> {0x00, 0x01}"
proof -
  have "set (out[i := 0x00]) \<subseteq> set out \<union> {0x00, 0x01}"
    "set (out[i := 0x01]) \<subseteq> set out \<union> {0x00, 0x01}"
    using set_update_subset_insert [of out i] by auto
  with assms show ?thesis
    by (auto simp: decrypt_block_def Let_def split: if_splits option.splits)
qed

lemma fold_decrypt_block_out:
  "fold (decrypt_block aens mfs nc) idxs (p, out, w) = (p', out', w') \<Longrightarrow>
   length out' = length out \<and> set out' \<subseteq> set out \<union> {0x00, 0x01}"
proof (induction idxs arbitrary: p out w)
  case Nil
  then show ?case by auto
next
  case (Cons i idxs)
  obtain p1 out1 w1 where step: "decrypt_block aens mfs nc i (p, out, w) = (p1, out1, w1)"
    by (cases "decrypt_block aens mfs nc i (p, out, w)") auto
  from decrypt_block_out [OF step]
  have a: "length out1 = length out" "set out1 \<subseteq> set out \<union> {0x00, 0x01}" by simp_all
  from Cons.prems step have "fold (decrypt_block aens mfs nc) idxs (p1, out1, w1) = (p', out', w')"
    by simp
  from Cons.IH [OF this] a show ?case by auto
qed

lemma c_rem_nonneg: "0 \<le> a \<Longrightarrow> c_rem a 26 = a mod 26"
  by (simp add: c_rem_def sgn_if)

lemma c_div_nonneg: "0 \<le> a \<Longrightarrow> c_div a 26 = a div 26"
  by (simp add: c_div_def sgn_if)

lemma coin_length_in_range:
  assumes "49 \<le> body_size ci" "unat (body_size ci) < 2 ^ 31 + 23"
  shows "sint (body_size ci - 23) = int (unat (body_size ci) - 23)"
proof -
  have u: "49 \<le> unat (body_size ci)" using assms(1) by (simp add: word_le_nat_alt)
  then have le: "(23 :: 32 word) \<le> body_size ci" by (simp add: word_le_nat_alt)
  have "unat (body_size ci - 23) = unat (body_size ci) - 23"
    using le by (simp add: unat_sub)
  moreover have "unat (body_size ci) - 23 < 2 ^ 31" using assms(2) by simp
  ultimately have lt: "unat (body_size ci - 23) < 2 ^ 31" by simp
  from lt have "int (unat (body_size ci - 23)) < int (2 ^ 31)"
    by (rule iffD2 [OF of_nat_less_iff])
  then have "uint (body_size ci - 23) < 2 ^ 31" by simp
  moreover have "- (2 ^ 31) \<le> uint (body_size ci - 23)"
    by (rule order_trans [of _ 0]) simp_all
  ultimately have "signed_take_bit 31 (uint (body_size ci - 23)) = uint (body_size ci - 23)"
    by (intro signed_take_bit_int_eq_self) simp_all
  then have "sint (body_size ci - 23) = uint (body_size ci - 23)"
    by (simp add: sint_uint)
  also have "\<dots> = int (unat (body_size ci - 23))" by (rule uint_nat)
  also have "\<dots> = int (unat (body_size ci) - 23)"
    using \<open>unat (body_size ci - 23) = unat (body_size ci) - 23\<close> by (rule arg_cong)
  finally show ?thesis .
qed

text \<open>
  As long as \<open>body_size - 23\<close> fits a signed 32-bit \<^verbatim>\<open>int\<close>, the status is as the
  parsing rules say, and a request that parses gives one result byte per block, each
  \<open>0x00\<close> or \<open>0x01\<close>.
\<close>

lemma decrypt_raida_key_in_range:
  assumes range: "unat (body_size ci) < 2 ^ 31 + 23"
  shows "(body_size ci < 49 \<longrightarrow>
            command_status (fst (cmd_decrypt_raida_key ci w)) = ERROR_INVALID_PACKET_LENGTH) \<and>
         (49 \<le> body_size ci \<and> (unat (body_size ci) - 23) mod 26 \<noteq> 0 \<longrightarrow>
            command_status (fst (cmd_decrypt_raida_key ci w)) = ERROR_COINS_NOT_DIV) \<and>
         (49 \<le> body_size ci \<and> (unat (body_size ci) - 23) mod 26 = 0 \<and>
          fst (load_my_enc_coin (body ci ! 0) (get_sn (drop 1 (body ci))) (replicate 400 0) w) = 0 \<and>
          malloc_ok w \<longrightarrow>
            command_status (fst (cmd_decrypt_raida_key ci w)) = STATUS_SUCCESS \<and>
            output_size (fst (cmd_decrypt_raida_key ci w)) = of_nat ((unat (body_size ci) - 23) div 26) \<and>
            (\<exists>out. output_buf (fst (cmd_decrypt_raida_key ci w)) = Some (Bytes out) \<and>
                   length out = (unat (body_size ci) - 23) div 26 \<and>
                   set out \<subseteq> {0x00, 0x01}))"
proof (intro conjI impI)
  assume "body_size ci < 49"
  then show "command_status (fst (cmd_decrypt_raida_key ci w)) = ERROR_INVALID_PACKET_LENGTH"
    by (simp add: cmd_decrypt_raida_key_def)
next
  assume a: "49 \<le> body_size ci \<and> (unat (body_size ci) - 23) mod 26 \<noteq> 0"
  then have "sint (body_size ci - 23) = int (unat (body_size ci) - 23)"
    using range by (intro coin_length_in_range) simp_all
  moreover have "int (unat (body_size ci) - 23) mod 26 = int ((unat (body_size ci) - 23) mod 26)"
    by (simp add: zmod_int)
  then have "int (unat (body_size ci) - 23) mod 26 \<noteq> 0"
    using a by simp
  ultimately show "command_status (fst (cmd_decrypt_raida_key ci w)) = ERROR_COINS_NOT_DIV"
    using a by (simp add: cmd_decrypt_raida_key_def c_rem_nonneg Let_def not_less [symmetric])
next
  define M where "M = (unat (body_size ci) - 23) div 26"
  assume a: "49 \<le> body_size ci \<and> (unat (body_size ci) - 23) mod 26 = 0 \<and>
          fst (load_my_enc_coin (body ci ! 0) (get_sn (drop 1 (body ci))) (replicate 400 0) w) = 0 \<and>
          malloc_ok w"
  then have len: "sint (body_size ci - 23) = int (unat (body_size ci) - 23)"
    using range by (intro coin_length_in_range) simp_all
  have "int (unat (body_size ci) - 23) mod 26 = int ((unat (body_size ci) - 23) mod 26)"
    by (simp add: zmod_int)
  then have rem: "c_rem (sint (body_size ci - 23)) 26 = 0"
    using a by (simp add: len c_rem_nonneg)
  have tot: "c_div (sint (body_size ci - 23)) 26 = int M"
    by (simp add: len c_div_nonneg M_def zdiv_int)
  obtain aens where coin: "load_my_enc_coin (body ci ! 0) (get_sn (drop 1 (body ci)))
      (replicate 400 0) w = (0, aens)"
    using a by (cases "load_my_enc_coin (body ci ! 0) (get_sn (drop 1 (body ci))) (replicate 400 0) w")
      auto
  obtain p' out w' where run: "fold (decrypt_block aens (mfs_now w) (nonce ci)) [0..<M]
      (body ci, replicate M 0, w) = (p', out, w')"
    by (cases "fold (decrypt_block aens (mfs_now w) (nonce ci)) [0..<M] (body ci, replicate M 0, w)")
      auto
  from fold_decrypt_block_out [OF run]
  have out: "length out = M" "set out \<subseteq> {0x00, 0x01}" by auto
  have res: "fst (cmd_decrypt_raida_key ci w) =
      ci\<lparr>body := p', output_buf := Some (Bytes out), command_status := STATUS_SUCCESS,
         output_size := of_nat M\<rparr>"
    using a coin run
    by (simp add: cmd_decrypt_raida_key_def get_body_payload_def rem tot Let_def
        not_less [symmetric])
  show "command_status (fst (cmd_decrypt_raida_key ci w)) = STATUS_SUCCESS"
    by (simp add: res)
  show "output_size (fst (cmd_decrypt_raida_key ci w)) = of_nat ((unat (body_size ci) - 23) div 26)"
    by (simp add: res M_def)
  show "\<exists>out. output_buf (fst (cmd_decrypt_raida_key ci w)) = Some (Bytes out) \<and>
              length out = (unat (body_size ci) - 23) div 26 \<and> set out \<subseteq> {0x00, 0x01}"
    using out by (simp add: res M_def)
qed

text \<open>
  C7. \<^verbatim>\<open>coin_length\<close> is an \<^verbatim>\<open>int\<close>: from \<open>body_size = 2 ^ 31 + 23\<close> on, the difference
  \<open>body_size - 23\<close> is read as a negative number and \<^verbatim>\<open>%\<close> works on that. For the
  request below \<open>body_size \<ge> 49\<close>, \<open>(body_size - 23) mod 26 = 0\<close>, the coin loads and the
  buffer can be allocated, and the status is \<open>ERROR_COINS_NOT_DIV\<close>.
\<close>

theorem decrypt_raida_key_signed_length:
  "49 \<le> body_size huge_request \<and>
   length (body huge_request) = unat (body_size huge_request) \<and>
   (unat (body_size huge_request) - 23) mod 26 = 0 \<and>
   fst (load_my_enc_coin (body huge_request ! 0) (get_sn (drop 1 (body huge_request)))
          (replicate 400 0) huge_world) = 0 \<and>
   malloc_ok huge_world \<and>
   command_status (fst (cmd_decrypt_raida_key huge_request huge_world)) = ERROR_COINS_NOT_DIV"
proof -
  have "memcpy (replicate 400 0) 0 ([0x00, 0x00, 0x00, 0x01] @ replicate 36 0 @ peer_table) 40 400
          = peer_table"
    by (subst memcpy_whole) (simp_all add: peer_table_def)
  then have "load_my_enc_coin 0 0 (replicate 400 0) huge_world = (0, peer_table)"
    by (simp add: load_my_enc_coin_def huge_world_def demo_world_def Let_def char_value_def
        peer_table_def)
  moreover have "body huge_request ! 0 = 0" "get_sn (drop 1 (body huge_request)) = 0"
    by (simp_all add: huge_request_def get_sn_def)
  moreover have "sint (body_size huge_request - 23) = - 2147483646"
    by (simp add: huge_request_def)
  ultimately show ?thesis
    by (simp add: cmd_decrypt_raida_key_def c_rem_def Let_def)
       (simp add: huge_request_def huge_world_def demo_world_def)
qed

theorem decrypt_raida_key_signed_length_witness:
  "command_status (fst (cmd_decrypt_raida_key huge_request huge_world)) \<noteq> STATUS_SUCCESS"
  using decrypt_raida_key_signed_length by simp

section \<open>Integrity checks in reconstruction\<close>

lemma length_simple_sha256: "length (simple_sha256 dat) = 32"
  by (simp add: simple_sha256_def Let_def word_bytes_def split: prod.splits)

lemma verify_damaged:
  assumes "checksum f = simple_sha256 (hash_input f)"
  shows "rke_verify_checksum (damage f) = RKE_ERROR_FRAGMENT_CORRUPT"
proof -
  let ?c = "simple_sha256 (hash_input f)"
  have len: "length ?c = 32" by (rule length_simple_sha256)
  have flip: "b XOR 1 \<noteq> b" for b :: byte
  proof
    assume "b XOR 1 = b"
    then have "b XOR (b XOR 1) = b XOR b" by simp
    then have "(1 :: byte) = 0" by (simp add: xor.assoc [symmetric])
    then show False by simp
  qed
  have "(?c[0 := ?c ! 0 XOR 1]) ! 0 \<noteq> ?c ! 0"
    using len flip by simp
  then have "?c[0 := ?c ! 0 XOR 1] \<noteq> ?c" by metis
  then show ?thesis
    using assms len
    by (simp add: rke_verify_checksum_def rke_calculate_checksum_def damage_def hash_input_def)
qed

text \<open>
  \<open>rke_reconstruct_key\<close> does not look at the checksum of a slot from \<open>threshold\<close> on.
\<close>

lemma reconstruct_ignores_late_checksum:
  assumes "unat (m_threshold md) \<le> i"
  shows "rke_reconstruct_key key_size md
           (g\<lparr>fragment_storage := (fragment_storage g)[i := damage (fragment_storage g ! i)]\<rparr>)
         = rke_reconstruct_key key_size md g"
proof -
  let ?S = "fragment_storage g"
  let ?S' = "?S[i := damage (?S ! i)]"
  have dat: "data (?S' ! j) = data (?S ! j)" for j
  proof (cases "i < length ?S")
    case True
    then show ?thesis by (simp add: nth_list_update damage_def)
  next
    case False
    then have "?S' = ?S" by (intro list_update_beyond) simp
    then show ?thesis by simp
  qed
  have "verify_loop (unat (m_threshold md)) ?S' = verify_loop (unat (m_threshold md)) ?S"
    using assms by (auto simp: verify_loop_def)
  moreover have "(\<lambda>frag_idx key. xor_bytes key (data (?S' ! frag_idx)) (unat key_size))
      = (\<lambda>frag_idx key. xor_bytes key (data (?S ! frag_idx)) (unat key_size))"
    by (simp add: dat)
  ultimately show ?thesis
    by (simp add: rke_reconstruct_key_def dat)
qed

text \<open>
  C6. After the split into three fragments with threshold two, the third fragment with a
  damaged checksum fails \<open>rke_verify_checksum\<close>; its data is among the three that
  \<open>rke_reconstruct_key\<close> XORs, and the reconstruction succeeds and returns a key.
\<close>

theorem reconstruct_skips_unverified_fragment:
  "fragment_count damaged_globals = 3 \<and>
   unat (m_threshold demo_metadata) = 2 \<and>
   rke_verify_checksum (fragment_storage damaged_globals ! 2) = RKE_ERROR_FRAGMENT_CORRUPT \<and>
   rke_reconstruct_key 2 demo_metadata damaged_globals = Inr demo_key"
proof -
  have ok: "rke_split_key demo_key 2 demo_metadata demo_globals = (RKE_SUCCESS, split_globals)"
    using demo_split_status by (simp add: prod_eq_iff split_globals_def)
  have len: "length demo_key = unat (2 :: 16 word)" by (simp add: demo_key_def)
  have N: "unat (m_total_fragments demo_metadata) = 3" and T: "unat (m_threshold demo_metadata) = 2"
    by (simp_all add: demo_metadata_def)
  note st = split_storage [OF ok len]
  note su = split_success [OF ok]
  have cnt: "fragment_count damaged_globals = 3"
    using su(5) by (auto simp: damaged_globals_def demo_metadata_def)
  have l256: "length (fragment_storage split_globals) = 256" by (rule st(1))
  have "checksum (fragment_storage split_globals ! 2)
      = simple_sha256 (hash_input (fragment_storage split_globals ! 2))"
    using st(6) N by simp
  then have bad: "rke_verify_checksum (fragment_storage damaged_globals ! 2) = RKE_ERROR_FRAGMENT_CORRUPT"
    using l256 by (simp add: damaged_globals_def verify_damaged)
  have "rke_reconstruct_key 2 demo_metadata damaged_globals
      = rke_reconstruct_key 2 demo_metadata split_globals"
    unfolding damaged_globals_def using T by (intro reconstruct_ignores_late_checksum) simp
  also have "\<dots> = Inr demo_key"
    using roundtrip_core [OF ok len] by simp
  finally show ?thesis using cnt T bad by simp
qed

section \<open>Generate and query\<close>

lemma split_key_frame:
  assumes "rke_split_key key ks md (w :: world) = (rv, w')"
  shows "cwd w' = cwd w" "frag_files w' = frag_files w" "meta_files w' = meta_files w"
    "malloc_ok w' = malloc_ok w" "mkdir_ok w' = mkdir_ok w" "open_ok w' = open_ok w"
    "write_ok w' = write_ok w"
  using assms by (auto simp: rke_split_key_def split: if_splits prod.splits)

lemma store_metadata_effect:
  assumes "rke_store_metadata md w = (RKE_SUCCESS, w')"
  shows "cwd w' = cwd w" "frag_files w' = frag_files w" "malloc_ok w' = malloc_ok w"
    "meta_files w' = (meta_files w)(metadata_path (cwd w) (key_id md) \<mapsto> Whole md)"
  using assms by (auto simp: rke_store_metadata_def Let_def split: if_splits)

text \<open>
  What a successful \<open>cmd_rke_generate\<close> leaves: the one-byte answer, the metadata record
  in its file, and the fragment files as they were.
\<close>

lemma generate_success:
  assumes ok: "command_status (fst (cmd_rke_generate ci w)) = STATUS_SUCCESS"
  shows "output_buf (fst (cmd_rke_generate ci w)) = Some (Bytes [0x01])"
    and "frag_files (snd (cmd_rke_generate ci w)) = frag_files w"
    and "cwd (snd (cmd_rke_generate ci w)) = cwd w"
    and "malloc_ok (snd (cmd_rke_generate ci w)) = malloc_ok w"
    and "meta_files (snd (cmd_rke_generate ci w)) (metadata_path (cwd w) (take 16 (body ci)))
           = Some (Whole \<lparr>key_id = take 16 (body ci), key_type = body ci ! 16,
                m_total_fragments = body ci ! 17, m_threshold = body ci ! 18,
                timestamp = clock w, den = 0, sn = 0\<rparr>)"
proof -
  define md where "md = \<lparr>key_id = take 16 (body ci), key_type = body ci ! 16,
                m_total_fragments = body ci ! 17, m_threshold = body ci ! 18,
                timestamp = clock w, den = 0, sn = 0\<rparr>"
  obtain rv key dev where gk: "rke_generate_key (replicate 256 0) 256 (dev_urandom w) = (rv, key, dev)"
    by (cases "rke_generate_key (replicate 256 0) 256 (dev_urandom w)") auto
  obtain rv2 w2 where sp: "rke_split_key key 256 md (w\<lparr>dev_urandom := dev\<rparr>) = (rv2, w2)"
    by (cases "rke_split_key key 256 md (w\<lparr>dev_urandom := dev\<rparr>)") auto
  obtain rv3 w3 where sm: "rke_store_metadata md w2 = (rv3, w3)"
    by (cases "rke_store_metadata md w2") auto
  from ok gk sp sm
  have res: "cmd_rke_generate ci w =
      (ci\<lparr>output_size := 1, output_buf := Some (Bytes [0x01]), command_status := STATUS_SUCCESS\<rparr>, w3)"
    and rv3: "rv3 = RKE_SUCCESS"
    by (auto simp: cmd_rke_generate_def get_body_payload_def Let_def md_def [symmetric]
        split: if_splits)
  note f2 = split_key_frame [OF sp]
  note f3 = store_metadata_effect [OF sm [unfolded rv3]]
  show "output_buf (fst (cmd_rke_generate ci w)) = Some (Bytes [0x01])" by (simp add: res)
  show "frag_files (snd (cmd_rke_generate ci w)) = frag_files w" by (simp add: res f2 f3)
  show "cwd (snd (cmd_rke_generate ci w)) = cwd w" by (simp add: res f2 f3)
  show "malloc_ok (snd (cmd_rke_generate ci w)) = malloc_ok w" by (simp add: res f2 f3)
  show "meta_files (snd (cmd_rke_generate ci w)) (metadata_path (cwd w) (take 16 (body ci)))
           = Some (Whole \<lparr>key_id = take 16 (body ci), key_type = body ci ! 16,
                m_total_fragments = body ci ! 17, m_threshold = body ci ! 18,
                timestamp = clock w, den = 0, sn = 0\<rparr>)"
    by (simp add: res f2 f3 md_def)
qed

lemma fragment_map_loop_none:
  assumes "\<And>i. rke_fragment_exists kid i w = 0"
  shows "fragment_map_loop kid n w = replicate 32 0"
  unfolding fragment_map_loop_def
  by (induction n) (simp_all add: assms)

lemma gen_request_fields:
  "body_size gen_request = 21" "take 16 (body gen_request) = demo_key_id"
  "body gen_request ! 16 = 1" "body gen_request ! 17 = 5" "body gen_request ! 18 = 3"
  "body_size query_request = 18" "take 16 (body query_request) = demo_key_id"
  by (simp_all add: gen_request_def query_request_def demo_key_id_def)

lemma gen_status: "command_status (fst (cmd_rke_generate gen_request gen_world)) = STATUS_SUCCESS"
proof -
  have key: "rke_generate_key (replicate 256 0) 256 (dev_urandom gen_world)
      = (RKE_SUCCESS, replicate 256 0x11,
         [Some (replicate 256 0x22), Some (replicate 256 0x33), Some (replicate 256 0x44),
          Some (replicate 256 0x55)])"
    by (simp add: rke_generate_key_def gen_world_def demo_world_def)
  have split: "fst (rke_split_key (replicate 256 0x11) 256
        \<lparr>key_id = demo_key_id, key_type = 1, m_total_fragments = 5, m_threshold = 3,
           timestamp = clock gen_world, den = 0, sn = 0\<rparr>
        (gen_world\<lparr>dev_urandom := [Some (replicate 256 0x22), Some (replicate 256 0x33),
           Some (replicate 256 0x44), Some (replicate 256 0x55)]\<rparr>)) = RKE_SUCCESS"
    by (simp add: rke_split_key_def upt_conv_Cons Let_def split: prod.splits)
  have env: "mkdir_ok gen_world = (\<lambda>p. True)" "open_ok gen_world = (\<lambda>p. True)"
    "write_ok gen_world = (\<lambda>p. True)" "malloc_ok gen_world"
    by (simp_all add: gen_world_def demo_world_def)
  obtain rv2 w2 where sp: "rke_split_key (replicate 256 0x11) 256
        \<lparr>key_id = demo_key_id, key_type = 1, m_total_fragments = 5, m_threshold = 3,
           timestamp = clock gen_world, den = 0, sn = 0\<rparr>
        (gen_world\<lparr>dev_urandom := [Some (replicate 256 0x22), Some (replicate 256 0x33),
           Some (replicate 256 0x44), Some (replicate 256 0x55)]\<rparr>) = (rv2, w2)"
    by (cases "rke_split_key (replicate 256 0x11) 256
        \<lparr>key_id = demo_key_id, key_type = 1, m_total_fragments = 5, m_threshold = 3,
           timestamp = clock gen_world, den = 0, sn = 0\<rparr>
        (gen_world\<lparr>dev_urandom := [Some (replicate 256 0x22), Some (replicate 256 0x33),
           Some (replicate 256 0x44), Some (replicate 256 0x55)]\<rparr>)") auto
  with split have rv2: "rv2 = RKE_SUCCESS" by simp
  note f2 = split_key_frame [OF sp]
  show ?thesis
    using key sp rv2 env
    by (simp add: cmd_rke_generate_def get_body_payload_def gen_request_fields Let_def
        rke_store_metadata_def f2)
qed

text \<open>No run of \<open>cmd_rke_generate\<close> creates or removes a fragment file.\<close>

lemma generate_keeps_fragment_files:
  "rke_fragment_exists kid fid (snd (cmd_rke_generate ci w)) = rke_fragment_exists kid fid w"
proof -
  define md where "md = \<lparr>key_id = take 16 (body ci), key_type = body ci ! 16,
                m_total_fragments = body ci ! 17, m_threshold = body ci ! 18,
                timestamp = clock w, den = 0, sn = 0\<rparr>"
  obtain rv key dev where gk: "rke_generate_key (replicate 256 0) 256 (dev_urandom w) = (rv, key, dev)"
    by (cases "rke_generate_key (replicate 256 0) 256 (dev_urandom w)") auto
  obtain rv2 w2 where sp: "rke_split_key key 256 md (w\<lparr>dev_urandom := dev\<rparr>) = (rv2, w2)"
    by (cases "rke_split_key key 256 md (w\<lparr>dev_urandom := dev\<rparr>)") auto
  obtain rv3 w3 where sm: "rke_store_metadata md w2 = (rv3, w3)"
    by (cases "rke_store_metadata md w2") auto
  note f2 = split_key_frame [OF sp]
  have f3: "cwd w3 = cwd w2" "frag_files w3 = frag_files w2"
    using sm by (auto simp: rke_store_metadata_def Let_def split: if_splits)
  have "cwd (snd (cmd_rke_generate ci w)) = cwd w \<and>
        frag_files (snd (cmd_rke_generate ci w)) = frag_files w"
    using gk sp sm f2 f3
    by (simp add: cmd_rke_generate_def get_body_payload_def Let_def md_def [symmetric])
  then show ?thesis by (simp add: rke_fragment_exists_def)
qed

text \<open>
  C2. The generate request of the first scenario succeeds on a store without fragment
  files and answers \<open>0x01\<close>; no fragment file exists afterwards, and the query for the
  key returns status 0, the metadata record and a bitmap of 32 zero bytes, where the
  claim has the bits 0..4 set.
\<close>

theorem generate_stores_no_fragments:
  "command_status (fst (cmd_rke_generate gen_request gen_world)) = STATUS_SUCCESS \<and>
   output_buf (fst (cmd_rke_generate gen_request gen_world)) = Some (Bytes [0x01]) \<and>
   rke_fragment_exists demo_key_id 1 (snd (cmd_rke_generate gen_request gen_world)) = 0 \<and>
   command_status (cmd_rke_query query_request (snd (cmd_rke_generate gen_request gen_world)))
     = STATUS_SUCCESS \<and>
   output_buf (cmd_rke_query query_request (snd (cmd_rke_generate gen_request gen_world)))
     = Some (MetadataAndMap
         \<lparr>key_id = demo_key_id, key_type = 1, m_total_fragments = 5, m_threshold = 3,
            timestamp = 0, den = 0, sn = 0\<rparr>
         (replicate 32 0))"
proof -
  let ?w = "snd (cmd_rke_generate gen_request gen_world)"
  note g = generate_success [OF gen_status]
  have files: "frag_files ?w = Map.empty"
    using g(2) by (simp add: gen_world_def demo_world_def)
  then have none: "rke_fragment_exists demo_key_id i ?w = 0" for i
    by (simp add: rke_fragment_exists_def)
  have env: "malloc_ok ?w" "clock gen_world = 0" "cwd ?w = cwd gen_world"
    using g(3,4) by (simp_all add: gen_world_def demo_world_def)
  have meta: "rke_load_metadata demo_key_id ?w =
      Inr \<lparr>key_id = demo_key_id, key_type = 1, m_total_fragments = 5, m_threshold = 3,
            timestamp = 0, den = 0, sn = 0\<rparr>"
    using g(5) env by (simp add: rke_load_metadata_def gen_request_fields)
  have "cmd_rke_query query_request ?w =
      query_request\<lparr>output_size := 64,
        output_buf := Some (MetadataAndMap
          \<lparr>key_id = demo_key_id, key_type = 1, m_total_fragments = 5, m_threshold = 3,
             timestamp = 0, den = 0, sn = 0\<rparr> (replicate 32 0)),
        command_status := STATUS_SUCCESS\<rparr>"
    using env(1) by (simp add: cmd_rke_query_def get_body_payload_def gen_request_fields meta
        Let_def fragment_map_loop_none [OF none])
  then show ?thesis
    using gen_status g(1) none by simp
qed

section \<open>Reconstruction and the fragment files\<close>

lemma dec_digit: "n < 10 \<Longrightarrow> dec n = [''0123456789'' ! n]"
  by (subst dec.simps) simp

lemma fragment_path_distinct:
  "fragment_path root kid 1 \<noteq> fragment_path root kid 2"
  "fragment_path root kid 1 \<noteq> fragment_path root kid 3"
  "fragment_path root kid 2 \<noteq> fragment_path root kid 3"
  by (simp_all add: fragment_path_def dec3_def dec_digit)

lemma upt_1_256: "[1..<256] = 1 # 2 # 3 # [4..<256]"
proof -
  have "[1..<256] = 1 # [Suc 1..<256]" by (rule upt_conv_Cons) simp
  moreover have "[2..<256] = 2 # [Suc 2..<256]" by (rule upt_conv_Cons) simp
  moreover have "[3..<256] = 3 # [Suc 3..<256]" by (rule upt_conv_Cons) simp
  moreover have "Suc 1 = 2" "Suc 2 = 3" "Suc 3 = 4" by simp_all
  ultimately show ?thesis by (simp only:)
qed

lemma count_fragments_ge:
  assumes "rke_fragment_exists kid 1 w \<noteq> 0" "rke_fragment_exists kid 2 w \<noteq> 0"
    "rke_fragment_exists kid 3 w \<noteq> 0"
  shows "3 \<le> rke_count_fragments kid w"
proof -
  let ?f = "\<lambda>i count :: int. if rke_fragment_exists kid (of_nat i) w \<noteq> 0 then count + 1 else count"
  have mono: "c \<le> fold ?f idxs c" for idxs c
  proof (induction idxs arbitrary: c)
    case Nil
    then show ?case by simp
  next
    case (Cons i idxs)
    have "c \<le> ?f i c" by simp
    also have "\<dots> \<le> fold ?f idxs (?f i c)" by (rule Cons.IH)
    finally show ?case by simp
  qed
  have step: "fold ?f (1 # 2 # 3 # rest) 0 = fold ?f rest 3" for rest
    using assms by simp
  have "rke_count_fragments kid w = fold ?f (1 # 2 # 3 # [4..<256]) 0"
    unfolding rke_count_fragments_def upt_1_256 ..
  also have "\<dots> = fold ?f [4..<256] 3" by (rule step)
  finally have "rke_count_fragments kid w = fold ?f [4..<256] 3" .
  moreover have "3 \<le> fold ?f [4..<256] 3" by (rule mono)
  ultimately show ?thesis by (simp only:)
qed

lemma reconstruct_key_globals:
  "fragment_storage g = fragment_storage g' \<Longrightarrow> fragment_count g = fragment_count g' \<Longrightarrow>
   rke_reconstruct_key ks md g = rke_reconstruct_key ks md g'"
  by (simp add: rke_reconstruct_key_def)

text \<open>
  C5, as amended. Take two worlds with the same configuration, metadata files, allocator,
  global fragment array and count, and the same fragment files present, and suppose that
  in both every fragment \<open>1 .. threshold\<close> that is present loads (\<open>load_required\<close>). Then
  \<open>cmd_rke_reconstruct\<close> gives the same connection state in both, whatever the fragment
  files hold; and a key it returns with status 0 is the one \<open>rke_reconstruct_key\<close>
  computes from the global array.
\<close>

theorem reconstruct_ignores_fragment_contents:
  assumes "cwd w1 = cwd w2" and "meta_files w1 = meta_files w2" and "malloc_ok w1 = malloc_ok w2"
    and "fragment_storage w1 = fragment_storage w2" and "fragment_count w1 = fragment_count w2"
    and "\<forall>p. (frag_files w1 p = None) = (frag_files w2 p = None)"
    and "\<forall>md. rke_load_metadata (take 16 (body ci)) w1 = Inr md \<longrightarrow>
           load_required (take 16 (body ci)) (unat (m_threshold md)) w1 \<and>
           load_required (take 16 (body ci)) (unat (m_threshold md)) w2"
  shows "cmd_rke_reconstruct ci w1 = cmd_rke_reconstruct ci w2 \<and>
         (command_status (cmd_rke_reconstruct ci w1) = STATUS_SUCCESS \<longrightarrow>
            (\<exists>md key. rke_load_metadata (take 16 (body ci)) w1 = Inr md \<and>
                      rke_reconstruct_key 256 md w1 = Inr key \<and>
                      output_buf (cmd_rke_reconstruct ci w1) = Some (Bytes key)))"
proof -
  let ?kid = "take 16 (body ci)"
  have ex: "rke_fragment_exists ?kid i w1 = rke_fragment_exists ?kid i w2" for i
    using assms(1,6) by (simp add: rke_fragment_exists_def)
  then have cnt: "rke_count_fragments ?kid w1 = rke_count_fragments ?kid w2"
    by (simp add: rke_count_fragments_def)
  have meta: "rke_load_metadata ?kid w1 = rke_load_metadata ?kid w2"
    using assms(1,2) by (simp add: rke_load_metadata_def)
  have rec: "rke_reconstruct_key 256 md w1 = rke_reconstruct_key 256 md w2" for md
    using assms(4,5) by (rule reconstruct_key_globals)
  have same: "cmd_rke_reconstruct ci w1 = cmd_rke_reconstruct ci w2"
  proof (cases "rke_load_metadata ?kid w1")
    case (Inl e)
    then show ?thesis using meta by (simp add: cmd_rke_reconstruct_def get_body_payload_def)
  next
    case (Inr md)
    with assms(7) have "load_required ?kid (unat (m_threshold md)) w1"
      "load_required ?kid (unat (m_threshold md)) w2" by simp_all
    with Inr show ?thesis
      using meta cnt rec [of md] assms(3)
      by (auto simp: cmd_rke_reconstruct_def get_body_payload_def Let_def split: sum.splits)
  qed
  have "command_status (cmd_rke_reconstruct ci w1) = STATUS_SUCCESS \<longrightarrow>
            (\<exists>md key. rke_load_metadata ?kid w1 = Inr md \<and>
                      rke_reconstruct_key 256 md w1 = Inr key \<and>
                      output_buf (cmd_rke_reconstruct ci w1) = Some (Bytes key))"
    by (auto simp: cmd_rke_reconstruct_def get_body_payload_def Let_def
        split: if_splits sum.splits)
  with same show ?thesis by simp
qed

lemma gen_world_reconstruct:
  "rke_reconstruct_key 256
     \<lparr>key_id = demo_key_id, key_type = 1, m_total_fragments = 5, m_threshold = 3,
        timestamp = 0, den = 0, sn = 0\<rparr>
     ((snd (cmd_rke_generate gen_request gen_world))\<lparr>frag_files := files\<rparr>)
   = Inr (replicate 256 0x11)"
proof -
  let ?md = "\<lparr>key_id = demo_key_id, key_type = 1, m_total_fragments = 5, m_threshold = 3,
           timestamp = clock gen_world, den = 0, sn = 0\<rparr>"
  let ?w1 = "gen_world\<lparr>dev_urandom := [Some (replicate 256 0x22), Some (replicate 256 0x33),
           Some (replicate 256 0x44), Some (replicate 256 0x55)]\<rparr>"
  have key: "rke_generate_key (replicate 256 0) 256 (dev_urandom gen_world)
      = (RKE_SUCCESS, replicate 256 0x11,
         [Some (replicate 256 0x22), Some (replicate 256 0x33), Some (replicate 256 0x44),
          Some (replicate 256 0x55)])"
    by (simp add: rke_generate_key_def gen_world_def demo_world_def)
  have split: "fst (rke_split_key (replicate 256 0x11) 256 ?md ?w1) = RKE_SUCCESS"
    by (simp add: rke_split_key_def upt_conv_Cons Let_def split: prod.splits)
  obtain w2 where sp: "rke_split_key (replicate 256 0x11) 256 ?md ?w1 = (RKE_SUCCESS, w2)"
    using split by (cases "rke_split_key (replicate 256 0x11) 256 ?md ?w1") auto
  have env: "mkdir_ok gen_world = (\<lambda>p. True)" "open_ok gen_world = (\<lambda>p. True)"
    "write_ok gen_world = (\<lambda>p. True)" "malloc_ok gen_world" "clock gen_world = 0"
    by (simp_all add: gen_world_def demo_world_def)
  note f2 = split_key_frame [OF sp]
  have glob: "fragment_storage (snd (cmd_rke_generate gen_request gen_world)) = fragment_storage w2"
    "fragment_count (snd (cmd_rke_generate gen_request gen_world)) = fragment_count w2"
    using key sp env(1-4)
    by (simp_all add: cmd_rke_generate_def get_body_payload_def gen_request_fields Let_def
        rke_store_metadata_def f2)
  have "length (replicate 256 (0x11 :: byte)) = unat (256 :: 16 word)" by simp
  from roundtrip_core [OF sp this]
  have "rke_reconstruct_key 256 ?md w2 = Inr (replicate 256 0x11)" by simp
  moreover have "rke_reconstruct_key 256 ?md
       ((snd (cmd_rke_generate gen_request gen_world))\<lparr>frag_files := files\<rparr>)
     = rke_reconstruct_key 256 ?md w2"
    by (rule reconstruct_key_globals) (simp_all add: glob)
  ultimately show ?thesis by (simp add: env(5))
qed

lemma store_world_env:
  "cwd (store_world f1) = ''/tmp/rke_test''" "malloc_ok (store_world f1)"
  "rke_load_metadata demo_key_id (store_world f1) =
     Inr \<lparr>key_id = demo_key_id, key_type = 1, m_total_fragments = 5, m_threshold = 3,
          timestamp = 0, den = 0, sn = 0\<rparr>"
proof -
  note g = generate_success [OF gen_status]
  show c: "cwd (store_world f1) = ''/tmp/rke_test''"
    using g(3) by (simp add: store_world_def gen_world_def demo_world_def)
  show "malloc_ok (store_world f1)"
    using g(4) by (simp add: store_world_def gen_world_def demo_world_def)
  have "cwd gen_world = ''/tmp/rke_test''" "clock gen_world = 0"
    by (simp_all add: gen_world_def demo_world_def)
  with g(5) show "rke_load_metadata demo_key_id (store_world f1) =
     Inr \<lparr>key_id = demo_key_id, key_type = 1, m_total_fragments = 5, m_threshold = 3,
          timestamp = 0, den = 0, sn = 0\<rparr>"
    using c by (simp add: rke_load_metadata_def store_world_def gen_request_fields)
qed

lemma store_world_files:
  "frag_files (store_world f1) (fragment_path ''/tmp/rke_test'' demo_key_id 1) = Some (Whole f1)"
  "frag_files (store_world f1) (fragment_path ''/tmp/rke_test'' demo_key_id 2)
     = Some (Whole (stored_fragment 2 0x22))"
  "frag_files (store_world f1) (fragment_path ''/tmp/rke_test'' demo_key_id 3)
     = Some (Whole (stored_fragment 3 0x33))"
  using fragment_path_distinct [of "''/tmp/rke_test''" demo_key_id]
  by (simp_all add: store_world_def)

lemma store_world_load_required:
  "load_required demo_key_id 3 (store_world f1)
     = (rke_validate_fragment f1 = RKE_SUCCESS \<and> fragment_id f1 = 1)"
proof -
  have "[1..<Suc 3] = [1, 2, 3]" by (simp add: upt_conv_Cons)
  then show ?thesis
    by (auto simp: load_required_def rke_load_fragment_def rke_fragment_exists_def
        store_world_env store_world_files rke_validate_fragment_def stored_fragment_def)
qed

lemma store_world_reconstruct:
  "cmd_rke_reconstruct query_request (store_world f1) =
     (if rke_validate_fragment f1 = RKE_SUCCESS \<and> fragment_id f1 = 1
      then query_request\<lparr>output_size := 256, output_buf := Some (Bytes (replicate 256 0x11)),
             command_status := STATUS_SUCCESS\<rparr>
      else query_request\<lparr>command_status := ERROR_FILESYSTEM\<rparr>)"
proof -
  have "3 \<le> rke_count_fragments demo_key_id (store_world f1)"
    by (rule count_fragments_ge)
       (simp_all add: rke_fragment_exists_def store_world_env store_world_files)
  then have cnt: "\<not> rke_count_fragments demo_key_id (store_world f1) < 3" by simp
  have rec: "rke_reconstruct_key 256
     \<lparr>key_id = demo_key_id, key_type = 1, m_total_fragments = 5, m_threshold = 3,
        timestamp = 0, den = 0, sn = 0\<rparr> (store_world f1) = Inr (replicate 256 0x11)"
    unfolding store_world_def by (rule gen_world_reconstruct)
  show ?thesis
    using cnt
    by (simp add: cmd_rke_reconstruct_def get_body_payload_def gen_request_fields
        store_world_env store_world_load_required rec Let_def)
qed

theorem reconstruct_ignores_fragment_contents_witness:
  "frag_files (store_world (stored_fragment 1 0x11)) (fragment_path ''/tmp/rke_test'' demo_key_id 1)
     \<noteq> frag_files (store_world (stored_fragment 1 0x99)) (fragment_path ''/tmp/rke_test'' demo_key_id 1) \<and>
   cmd_rke_reconstruct query_request (store_world (stored_fragment 1 0x11))
     = cmd_rke_reconstruct query_request (store_world (stored_fragment 1 0x99)) \<and>
   command_status (cmd_rke_reconstruct query_request (store_world (stored_fragment 1 0x11)))
     = STATUS_SUCCESS \<and>
   output_buf (cmd_rke_reconstruct query_request (store_world (stored_fragment 1 0x11)))
     = Some (Bytes (replicate 256 0x11))"
proof -
  let ?A = "store_world (stored_fragment 1 0x11)" and ?B = "store_world (stored_fragment 1 0x99)"
  have valid: "rke_validate_fragment (stored_fragment 1 b) = RKE_SUCCESS"
    "fragment_id (stored_fragment 1 b) = 1" for b
    by (simp_all add: rke_validate_fragment_def stored_fragment_def)
  have h1: "cwd ?A = cwd ?B" "meta_files ?A = meta_files ?B" "malloc_ok ?A = malloc_ok ?B"
    "fragment_storage ?A = fragment_storage ?B" "fragment_count ?A = fragment_count ?B"
    by (simp_all add: store_world_def)
  have h6: "\<forall>p. (frag_files ?A p = None) = (frag_files ?B p = None)"
    by (simp add: store_world_def)
  have h7: "\<forall>md. rke_load_metadata (take 16 (body query_request)) ?A = Inr md \<longrightarrow>
           load_required (take 16 (body query_request)) (unat (m_threshold md)) ?A \<and>
           load_required (take 16 (body query_request)) (unat (m_threshold md)) ?B"
    by (auto simp: gen_request_fields store_world_env store_world_load_required valid)
  have differ: "frag_files ?A (fragment_path ''/tmp/rke_test'' demo_key_id 1)
     \<noteq> frag_files ?B (fragment_path ''/tmp/rke_test'' demo_key_id 1)"
    by (simp add: store_world_files stored_fragment_def)
  from reconstruct_ignores_fragment_contents [OF h1 h6 h7] differ
  show ?thesis
    by (simp add: store_world_reconstruct valid)
qed

text \<open>
  The claim as stated fails when a fragment file does not load: with the same globals,
  metadata and files present, the record in the file of fragment 1 decides between the
  key and \<open>ERROR_FILESYSTEM\<close>.
\<close>

theorem reconstruct_load_failure_counterexample:
  "cwd (store_world (stored_fragment 1 0x11)) = cwd (store_world (stored_fragment 2 0x11)) \<and>
   meta_files (store_world (stored_fragment 1 0x11)) = meta_files (store_world (stored_fragment 2 0x11)) \<and>
   fragment_storage (store_world (stored_fragment 1 0x11))
     = fragment_storage (store_world (stored_fragment 2 0x11)) \<and>
   fragment_count (store_world (stored_fragment 1 0x11))
     = fragment_count (store_world (stored_fragment 2 0x11)) \<and>
   dom (frag_files (store_world (stored_fragment 1 0x11)))
     = dom (frag_files (store_world (stored_fragment 2 0x11))) \<and>
   cmd_rke_reconstruct query_request (store_world (stored_fragment 1 0x11))
     = query_request\<lparr>output_size := 256, output_buf := Some (Bytes (replicate 256 0x11)),
         command_status := STATUS_SUCCESS\<rparr> \<and>
   cmd_rke_reconstruct query_request (store_world (stored_fragment 2 0x11))
     = query_request\<lparr>command_status := ERROR_FILESYSTEM\<rparr>"
proof -
  have "rke_validate_fragment (stored_fragment 1 0x11) = RKE_SUCCESS"
    "fragment_id (stored_fragment 1 0x11) = 1" "fragment_id (stored_fragment 2 0x11) \<noteq> 1"
    by (simp_all add: rke_validate_fragment_def stored_fragment_def)
  then show ?thesis
    by (simp add: store_world_reconstruct) (simp add: store_world_def)
qed

end
